theory Spec2Isabelle
  imports Complex_Main "HOL-Library.Word"
begin

unbundle bit_operations_syntax

section \<open>Data model\<close>

text \<open>
  Numbers of the program are modelled as exact reals: every statement below is about the
  arithmetic the code writes down, not about its IEEE rounding.  A \<open>THREE.Vector3\<close> value
  is a triple of reals.
\<close>

datatype vec3 = Vector3 (vx: real) (vy: real) (vz: real)

text \<open>The global \<open>params\<close> object (the fields the core reads).\<close>

record params =
  sphereCount :: int
  smoothK :: real
  speed :: real
  targetRadius :: real
  radiusVariance :: real
  cellsPerAxis :: int
  volumeRadius :: real
  isoLevel :: real

text \<open>
  One element of the global \<open>spheres\<close> array.  The two vectors of a sphere are created by
  \<open>reseedSpheres\<close> with \<open>new THREE.Vector3\<close> and are never handed out, so they are
  held by value.
\<close>

record sphere =
  position :: vec3
  target :: vec3
  radius :: real
  speed :: real

subsection \<open>The operations of \<open>THREE.Vector3\<close> that the core calls\<close>

definition subVectors :: "vec3 \<Rightarrow> vec3 \<Rightarrow> vec3" where
  "subVectors a b = Vector3 (vx a - vx b) (vy a - vy b) (vz a - vz b)"

definition vlength :: "vec3 \<Rightarrow> real" where
  "vlength v = sqrt (vx v * vx v + vy v * vy v + vz v * vz v)"

definition distanceTo :: "vec3 \<Rightarrow> vec3 \<Rightarrow> real" where
  "distanceTo a b =
     (let dx = vx a - vx b; dy = vy a - vy b; dz = vz a - vz b
      in sqrt (dx * dx + dy * dy + dz * dz))"

definition multiplyScalar :: "vec3 \<Rightarrow> real \<Rightarrow> vec3" where
  "multiplyScalar v s = Vector3 (vx v * s) (vy v * s) (vz v * s)"

text \<open>\<open>normalize\<close> divides by \<open>length() || 1\<close>: the zero vector stays as it is.\<close>

definition normalize :: "vec3 \<Rightarrow> vec3" where
  "normalize v =
     (let l = vlength v; d = (if l = 0 then 1 else l) in multiplyScalar v (1 / d))"

definition vadd :: "vec3 \<Rightarrow> vec3 \<Rightarrow> vec3" where
  "vadd a b = Vector3 (vx a + vx b) (vy a + vy b) (vz a + vz b)"

definition lerpVectors :: "vec3 \<Rightarrow> vec3 \<Rightarrow> real \<Rightarrow> vec3" where
  "lerpVectors v1 v2 alpha =
     Vector3 (vx v1 + (vx v2 - vx v1) * alpha)
             (vy v1 + (vy v2 - vy v1) * alpha)
             (vz v1 + (vz v2 - vz v1) * alpha)"

section \<open>Field model\<close>

definition sdf_sphere :: "vec3 \<Rightarrow> vec3 \<Rightarrow> real \<Rightarrow> real" where
  "sdf_sphere p center r = distanceTo p center - r"

definition smin :: "real \<Rightarrow> real \<Rightarrow> real \<Rightarrow> real" where
  "smin a b k =
     (let h = max 0.0 (min 1.0 (0.5 + 0.5 * (b - a) / k))
      in a * h + b * (1.0 - h) - k * h * (1.0 - h))"

text \<open>The loop of \<open>fieldValue\<close>: \<open>d\<close> starts at \<open>1e9\<close> and is folded over the spheres in order.\<close>

definition fieldStep :: "params \<Rightarrow> vec3 \<Rightarrow> sphere \<Rightarrow> real \<Rightarrow> real" where
  "fieldStep ps worldPos s d =
     (let di = sdf_sphere worldPos (position s) (radius s) in smin d di (smoothK ps))"

definition fieldValue :: "params \<Rightarrow> sphere list \<Rightarrow> vec3 \<Rightarrow> real" where
  "fieldValue ps spheres worldPos = fold (fieldStep ps worldPos) spheres 1000000000"

text \<open>
  The field as the specification words it: the distance to the first emitter, then the
  remaining emitters folded in with \<open>smin\<close>.  It has no value for an empty emitter list.
\<close>

definition fieldValue_spec :: "params \<Rightarrow> sphere list \<Rightarrow> vec3 \<Rightarrow> real option" where
  "fieldValue_spec ps spheres worldPos =
     (case spheres of
        [] \<Rightarrow> None
      | s0 # rest \<Rightarrow>
          Some (fold (fieldStep ps worldPos) rest
                  (sdf_sphere worldPos (position s0) (radius s0))))"

section \<open>Program state\<close>

text \<open>
  The module keeps its scratch vectors in globals and hands out references to them, so
  the \<open>Vector3\<close> objects that \<open>updateMesh\<close> touches live in an explicit heap.  A
  reference names one object: the global \<open>p\<close>, the global \<open>normal_h\<close>, the object
  \<open>cornerPositions[c]\<close>, the object that \<open>edgeIntersection[e]\<close> held when the module
  was loaded, or the \<open>n\<close>-th object made by \<open>new THREE.Vector3()\<close> in
  \<open>interpolateVertex\<close>.
\<close>

datatype ref = P | NormalH | Corner nat | EdgeSlot nat | Fresh nat

datatype error = TypeError

record state =
  heap :: "ref \<Rightarrow> vec3"
  nextFresh :: nat
  cornerValues :: "real list"
  edgeIntersection :: "ref list"
  vertices :: "real list"
  normals :: "real list"
  spheres :: "sphere list"
  draws :: nat

text \<open>
  \<open>MarchingCubesTables.js\<close> is not part of the sources at hand, so the two tables are
  parameters: \<open>edgeTable c\<close> is the edge mask of case \<open>c\<close> and \<open>triTable c\<close> its row of
  edge indices.
\<close>

record tables =
  edgeTable :: "nat \<Rightarrow> nat"
  triTable :: "nat \<Rightarrow> int list"

text \<open>
  \<open>Math.random()\<close> is a parameter too: \<open>rnd n\<close> is the number returned by the \<open>n\<close>-th
  call, and \<open>draws\<close> counts the calls made so far.
\<close>

type_synonym random = "nat \<Rightarrow> real"

definition vset :: "ref \<Rightarrow> vec3 \<Rightarrow> state \<Rightarrow> state" where
  "vset r v st = st\<lparr>heap := (heap st)(r := v)\<rparr>"

definition newVector3 :: "vec3 \<Rightarrow> state \<Rightarrow> ref \<times> state" where
  "newVector3 v st =
     (Fresh (nextFresh st),
      st\<lparr>heap := (heap st)(Fresh (nextFresh st) := v), nextFresh := Suc (nextFresh st)\<rparr>)"

section \<open>Sphere logic\<close>

text \<open>One iteration of the loop of \<open>reseedSpheres\<close>; it calls \<open>Math.random()\<close> eight times.\<close>

definition newSphere :: "params \<Rightarrow> random \<Rightarrow> nat \<Rightarrow> sphere" where
  "newSphere ps rnd n =
     (let r = targetRadius ps + (rnd n - 0.5) * 2 * radiusVariance ps * targetRadius ps;
          padding = volumeRadius ps * (0.3 + smoothK ps * 3)
      in \<lparr> position = Vector3 ((rnd (n + 1) - 0.5) * (volumeRadius ps - padding) * 2)
                               ((rnd (n + 2) - 0.5) * (volumeRadius ps - padding) * 2)
                               ((rnd (n + 3) - 0.5) * (volumeRadius ps - padding) * 2),
           target = Vector3 ((rnd (n + 4) - 0.5) * (volumeRadius ps - padding) * 2)
                             ((rnd (n + 5) - 0.5) * (volumeRadius ps - padding) * 2)
                             ((rnd (n + 6) - 0.5) * (volumeRadius ps - padding) * 2),
           radius = r,
           sphere.speed = (0.5 + rnd (n + 7) * 1.0) * params.speed ps \<rparr>)"

definition pushSphere :: "params \<Rightarrow> random \<Rightarrow> nat \<Rightarrow> state \<Rightarrow> state" where
  "pushSphere ps rnd i st =
     st\<lparr>spheres := spheres st @ [newSphere ps rnd (draws st)], draws := draws st + 8\<rparr>"

definition reseedSpheres :: "params \<Rightarrow> random \<Rightarrow> int \<Rightarrow> state \<Rightarrow> state" where
  "reseedSpheres ps rnd count st =
     fold (pushSphere ps rnd) [0..<nat count] (st\<lparr>spheres := []\<rparr>)"

text \<open>The half extent of the cube that targets are drawn from, as both sphere functions compute it.\<close>

definition paddedBounds :: "params \<Rightarrow> real" where
  "paddedBounds ps = volumeRadius ps - volumeRadius ps * (0.3 + smoothK ps * 3)"

text \<open>The three calls of \<open>Math.random()\<close> that make a new target.\<close>

definition randomTarget :: "random \<Rightarrow> real \<Rightarrow> nat \<Rightarrow> vec3" where
  "randomTarget rnd bounds n =
     Vector3 ((rnd n - 0.5) * bounds * 2)
             ((rnd (n + 1) - 0.5) * bounds * 2)
             ((rnd (n + 2) - 0.5) * bounds * 2)"

text \<open>
  The body of the loop of \<open>updateSpheres\<close> for the sphere at index \<open>i\<close>.  \<open>direction\<close> is
  the global \<open>p\<close>, which \<open>subVectors\<close>, \<open>normalize\<close> and \<open>multiplyScalar\<close> overwrite.
\<close>

definition updateSphere :: "params \<Rightarrow> random \<Rightarrow> real \<Rightarrow> nat \<Rightarrow> state \<Rightarrow> state" where
  "updateSphere ps rnd deltaTime i st0 =
     (let padding = volumeRadius ps * (0.3 + smoothK ps * 3);
          bounds = volumeRadius ps - padding;
          s = spheres st0 ! i;
          st = vset P (subVectors (target s) (position s)) st0;
          distance = vlength (heap st P)
      in if distance < 0.001
         then st\<lparr>spheres := (spheres st)[i := s\<lparr>target := randomTarget rnd bounds (draws st)\<rparr>],
                 draws := draws st + 3\<rparr>
         else
           let moveStep = sphere.speed s * deltaTime
           in if moveStep \<ge> distance
              then st\<lparr>spheres := (spheres st)[i := s\<lparr>position := target s,
                                                      target := randomTarget rnd bounds (draws st)\<rparr>],
                      draws := draws st + 3\<rparr>
              else
                let st' = vset P (multiplyScalar (normalize (heap st P)) moveStep) st
                in st'\<lparr>spheres := (spheres st')[i := s\<lparr>position := vadd (position s) (heap st' P)\<rparr>]\<rparr>)"

definition updateSpheres :: "params \<Rightarrow> random \<Rightarrow> real \<Rightarrow> state \<Rightarrow> state" where
  "updateSpheres ps rnd deltaTime st =
     fold (updateSphere ps rnd deltaTime) [0..<length (spheres st)] st"

text \<open>
  Two descriptions used to follow the loop of \<open>updateSpheres\<close> through all emitters:
  whether the loop body redraws the target of an emitter, and the emitter the loop body
  leaves behind when its first call of \<open>Math.random()\<close> is the \<open>n\<close>-th.
\<close>

definition resamples :: "real \<Rightarrow> sphere \<Rightarrow> bool" where
  "resamples deltaTime s =
     (vlength (subVectors (target s) (position s)) < 0.001
      \<or> sphere.speed s * deltaTime \<ge> vlength (subVectors (target s) (position s)))"

definition stepSphere :: "params \<Rightarrow> random \<Rightarrow> real \<Rightarrow> sphere \<Rightarrow> nat \<Rightarrow> sphere" where
  "stepSphere ps rnd deltaTime s n =
     (let bounds = volumeRadius ps - volumeRadius ps * (0.3 + smoothK ps * 3);
          toTarget = subVectors (target s) (position s);
          redrawn = Vector3 ((rnd n - 0.5) * bounds * 2)
                            ((rnd (n + 1) - 0.5) * bounds * 2)
                            ((rnd (n + 2) - 0.5) * bounds * 2)
      in if vlength toTarget < 0.001 then s\<lparr>target := redrawn\<rparr>
         else if sphere.speed s * deltaTime \<ge> vlength toTarget
              then s\<lparr>position := target s, target := redrawn\<rparr>
              else s\<lparr>position := vadd (position s)
                        (multiplyScalar (normalize toTarget) (sphere.speed s * deltaTime))\<rparr>)"

section \<open>Marching cubes logic\<close>

text \<open>
  \<open>estimateNormal\<close> writes the six sample points into the global \<open>p\<close>, writes the result
  into the global \<open>normal_h\<close> and returns that same object.
\<close>

definition estimateNormal :: "params \<Rightarrow> ref \<Rightarrow> state \<Rightarrow> ref \<times> state" where
  "estimateNormal ps pos st0 =
     (let h = 0.001;
          st1 = vset P (Vector3 (vx (heap st0 pos) + h) (vy (heap st0 pos)) (vz (heap st0 pos))) st0;
          a1 = fieldValue ps (spheres st1) (heap st1 P);
          st2 = vset P (Vector3 (vx (heap st1 pos) - h) (vy (heap st1 pos)) (vz (heap st1 pos))) st1;
          a2 = fieldValue ps (spheres st2) (heap st2 P);
          nx = a1 - a2;
          st3 = vset P (Vector3 (vx (heap st2 pos)) (vy (heap st2 pos) + h) (vz (heap st2 pos))) st2;
          b1 = fieldValue ps (spheres st3) (heap st3 P);
          st4 = vset P (Vector3 (vx (heap st3 pos)) (vy (heap st3 pos) - h) (vz (heap st3 pos))) st3;
          b2 = fieldValue ps (spheres st4) (heap st4 P);
          ny = b1 - b2;
          st5 = vset P (Vector3 (vx (heap st4 pos)) (vy (heap st4 pos)) (vz (heap st4 pos) + h)) st4;
          c1 = fieldValue ps (spheres st5) (heap st5 P);
          st6 = vset P (Vector3 (vx (heap st5 pos)) (vy (heap st5 pos)) (vz (heap st5 pos) - h)) st5;
          c2 = fieldValue ps (spheres st6) (heap st6 P);
          nz = c1 - c2;
          st7 = vset NormalH (normalize (Vector3 nx ny nz)) st6
      in (NormalH, st7))"

text \<open>
  \<open>interpolateVertex\<close> returns the object \<open>p1\<close> or \<open>p2\<close> itself when a guard fires, and a
  new object otherwise.
\<close>

definition interpolateVertex :: "params \<Rightarrow> ref \<Rightarrow> ref \<Rightarrow> real \<Rightarrow> real \<Rightarrow> state \<Rightarrow> ref \<times> state" where
  "interpolateVertex ps p1 p2 v1 v2 st =
     (if \<bar>isoLevel ps - v1\<bar> < 0.00001 then (p1, st)
      else if \<bar>isoLevel ps - v2\<bar> < 0.00001 then (p2, st)
      else if \<bar>v1 - v2\<bar> < 0.00001 then (p1, st)
      else let t = (isoLevel ps - v1) / (v2 - v1)
           in newVector3 (lerpVectors (heap st p1) (heap st p2) t) st)"

text \<open>The eight \<open>cornerPositions[c].set(...)\<close> of a cell, in the order of the source.\<close>

definition setCorners :: "real \<Rightarrow> real \<Rightarrow> real \<Rightarrow> real \<Rightarrow> state \<Rightarrow> state" where
  "setCorners cellOriginX cellOriginY cellOriginZ cellSize st0 =
     (let st1 = vset (Corner 0) (Vector3 cellOriginX cellOriginY cellOriginZ) st0;
          st2 = vset (Corner 1) (Vector3 (cellOriginX + cellSize) cellOriginY cellOriginZ) st1;
          st3 = vset (Corner 2) (Vector3 (cellOriginX + cellSize) (cellOriginY + cellSize) cellOriginZ) st2;
          st4 = vset (Corner 3) (Vector3 cellOriginX (cellOriginY + cellSize) cellOriginZ) st3;
          st5 = vset (Corner 4) (Vector3 cellOriginX cellOriginY (cellOriginZ + cellSize)) st4;
          st6 = vset (Corner 5) (Vector3 (cellOriginX + cellSize) cellOriginY (cellOriginZ + cellSize)) st5;
          st7 = vset (Corner 6) (Vector3 (cellOriginX + cellSize) (cellOriginY + cellSize) (cellOriginZ + cellSize)) st6
      in vset (Corner 7) (Vector3 cellOriginX (cellOriginY + cellSize) (cellOriginZ + cellSize)) st7)"

definition cellSizeOf :: "params \<Rightarrow> real" where
  "cellSizeOf ps = (volumeRadius ps * 2) / real_of_int (cellsPerAxis ps)"

definition cellCorners :: "params \<Rightarrow> nat \<Rightarrow> nat \<Rightarrow> nat \<Rightarrow> state \<Rightarrow> state" where
  "cellCorners ps i j k st =
     (let halfSize = volumeRadius ps;
          cellSize = cellSizeOf ps;
          origin = - halfSize;
          cellOriginX = origin + real i * cellSize;
          cellOriginY = origin + real j * cellSize;
          cellOriginZ = origin + real k * cellSize
      in setCorners cellOriginX cellOriginY cellOriginZ cellSize st)"

text \<open>The loop over the eight corners: it fills \<open>cornerValues\<close> and builds \<open>cubeIndex\<close>.\<close>

definition cornerStep :: "params \<Rightarrow> nat \<Rightarrow> nat \<times> state \<Rightarrow> nat \<times> state" where
  "cornerStep ps c acc =
     (let cubeIndex = fst acc;
          st = snd acc;
          st' = st\<lparr>cornerValues := (cornerValues st)[c := fieldValue ps (spheres st) (heap st (Corner c))]\<rparr>
      in (if cornerValues st' ! c < isoLevel ps then cubeIndex OR push_bit c 1 else cubeIndex, st'))"

definition classify :: "params \<Rightarrow> state \<Rightarrow> nat \<times> state" where
  "classify ps st = fold (cornerStep ps) [0..<8] (0, st)"

text \<open>
  The twelve guarded assignments to \<open>edgeIntersection\<close>: edge \<open>e\<close> is tested with the mask
  \<open>2 ^ e\<close> and joins the two corners listed here.
\<close>

definition edgeCorners :: "(nat \<times> nat) list" where
  "edgeCorners =
     [(0, 1), (1, 2), (2, 3), (3, 0), (4, 5), (5, 6), (6, 7), (7, 4), (0, 4), (1, 5), (2, 6), (3, 7)]"

definition edgeStep :: "params \<Rightarrow> nat \<Rightarrow> nat \<Rightarrow> state \<Rightarrow> state" where
  "edgeStep ps em e st =
     (if em AND 2 ^ e \<noteq> 0
      then let a = fst (edgeCorners ! e);
               b = snd (edgeCorners ! e);
               res = interpolateVertex ps (Corner a) (Corner b)
                       (cornerValues st ! a) (cornerValues st ! b) st
           in (snd res)\<lparr>edgeIntersection := (edgeIntersection (snd res))[e := fst res]\<rparr>
      else st)"

definition interpolateEdges :: "params \<Rightarrow> nat \<Rightarrow> state \<Rightarrow> state" where
  "interpolateEdges ps em st = fold (edgeStep ps em) [0..<12] st"

text \<open>
  \<open>edgeIntersection[n]\<close> followed by a property access: an index outside the array
  yields \<open>undefined\<close>, and reading \<open>.x\<close> of it throws.
\<close>

definition edgeAt :: "int \<Rightarrow> state \<Rightarrow> ref option" where
  "edgeAt n st =
     (if 0 \<le> n \<and> nat n < length (edgeIntersection st)
      then Some (edgeIntersection st ! nat n) else None)"

definition pushVec :: "real list \<Rightarrow> vec3 \<Rightarrow> real list" where
  "pushVec buf v = buf @ [vx v, vy v, vz v]"

text \<open>The body of the triangle loop.\<close>

definition emitTriangle :: "params \<Rightarrow> ref \<Rightarrow> ref \<Rightarrow> ref \<Rightarrow> state \<Rightarrow> state" where
  "emitTriangle ps v1 v2 v3 st0 =
     (let st1 = st0\<lparr>vertices := pushVec (vertices st0) (heap st0 v1)\<rparr>;
          st2 = st1\<lparr>vertices := pushVec (vertices st1) (heap st1 v2)\<rparr>;
          st3 = st2\<lparr>vertices := pushVec (vertices st2) (heap st2 v3)\<rparr>;
          r1 = estimateNormal ps v1 st3;
          n1 = fst r1;
          r2 = estimateNormal ps v2 (snd r1);
          n2 = fst r2;
          r3 = estimateNormal ps v3 (snd r2);
          n3 = fst r3;
          st4 = snd r3;
          st5 = st4\<lparr>normals := pushVec (normals st4) (heap st4 n1)\<rparr>;
          st6 = st5\<lparr>normals := pushVec (normals st5) (heap st5 n2)\<rparr>
      in st6\<lparr>normals := pushVec (normals st6) (heap st6 n3)\<rparr>)"

text \<open>
  The triangle loop over one row of \<open>triTable\<close>, from index \<open>t\<close> on.  Reading past the
  end of the row yields \<open>undefined\<close>, which is not \<open>-1\<close>, so the body runs and throws.
\<close>

fun triLoop :: "params \<Rightarrow> int list \<Rightarrow> state \<Rightarrow> error + state" where
  "triLoop ps [] st = Inl TypeError"
| "triLoop ps (a # rest) st =
     (if a = - 1 then Inr st
      else (case rest of
              b # c # rest' \<Rightarrow>
                (case (edgeAt c st, edgeAt b st, edgeAt a st) of
                   (Some v1, Some v2, Some v3) \<Rightarrow> triLoop ps rest' (emitTriangle ps v1 v2 v3 st)
                 | _ \<Rightarrow> Inl TypeError)
            | _ \<Rightarrow> Inl TypeError))"

text \<open>The body of the innermost cell loop.\<close>

definition marchCell :: "params \<Rightarrow> tables \<Rightarrow> nat \<Rightarrow> nat \<Rightarrow> nat \<Rightarrow> state \<Rightarrow> error + state" where
  "marchCell ps tabs i j k st0 =
     (let st1 = cellCorners ps i j k st0;
          cl = classify ps st1;
          cubeIndex = fst cl;
          st2 = snd cl
      in if edgeTable tabs cubeIndex = 0 then Inr st2
         else triLoop ps (triTable tabs cubeIndex)
                (interpolateEdges ps (edgeTable tabs cubeIndex) st2))"

fun forEach :: "'a list \<Rightarrow> ('a \<Rightarrow> state \<Rightarrow> error + state) \<Rightarrow> state \<Rightarrow> error + state" where
  "forEach [] body st = Inr st"
| "forEach (x # xs) body st =
     (case body x st of Inl e \<Rightarrow> Inl e | Inr st' \<Rightarrow> forEach xs body st')"

text \<open>
  \<open>updateMesh\<close>.  The final state holds in \<open>vertices\<close> and \<open>normals\<close> what the function
  hands to the geometry; an exception leaves the geometry as it was.
\<close>

definition updateMesh :: "params \<Rightarrow> tables \<Rightarrow> state \<Rightarrow> error + state" where
  "updateMesh ps tabs st =
     (let cells = nat (cellsPerAxis ps)
      in forEach [0..<cells] (\<lambda>i.
           forEach [0..<cells] (\<lambda>j.
             forEach [0..<cells] (\<lambda>k. marchCell ps tabs i j k)))
           (st\<lparr>vertices := [], normals := []\<rparr>))"

text \<open>The two calls that \<open>animate\<close> makes every frame.\<close>

definition tick :: "params \<Rightarrow> tables \<Rightarrow> random \<Rightarrow> real \<Rightarrow> state \<Rightarrow> error + state" where
  "tick ps tabs rnd deltaTime st = updateMesh ps tabs (updateSpheres ps rnd deltaTime st)"

section \<open>What a pass over the grid computes\<close>

text \<open>
  The functions of this section are not in the source: they describe, without the heap,
  the numbers that \<open>updateMesh\<close> leaves in its two buffers, as functions of the field
  \<open>f = fieldValue\<close>.  The lemmas below prove that the code computes them.
\<close>

text \<open>
  The normal as the specification words it: the normalized central difference of the
  field at the point, with step \<open>1e-3\<close>.
\<close>

definition gradientNormal :: "(vec3 \<Rightarrow> real) \<Rightarrow> vec3 \<Rightarrow> vec3" where
  "gradientNormal f v =
     (let h = 0.001;
          nx = f (Vector3 (vx v + h) (vy v) (vz v)) - f (Vector3 (vx v - h) (vy v) (vz v));
          ny = f (Vector3 (vx v) (vy v + h) (vz v)) - f (Vector3 (vx v) (vy v - h) (vz v));
          nz = f (Vector3 (vx v) (vy v) (vz v + h)) - f (Vector3 (vx v) (vy v) (vz v - h))
      in normalize (Vector3 nx ny nz))"

text \<open>
  The corner position as the specification words it: bit 0 of the corner index moves the
  corner along x, bit 1 along y, bit 2 along z.
\<close>

definition cornerPosition_spec :: "params \<Rightarrow> nat \<Rightarrow> nat \<Rightarrow> nat \<Rightarrow> nat \<Rightarrow> vec3" where
  "cornerPosition_spec ps i j k c =
     Vector3 (- volumeRadius ps + real i * cellSizeOf ps + cellSizeOf ps * of_bool (bit c 0))
             (- volumeRadius ps + real j * cellSizeOf ps + cellSizeOf ps * of_bool (bit c 1))
             (- volumeRadius ps + real k * cellSizeOf ps + cellSizeOf ps * of_bool (bit c 2))"

text \<open>The point held by the object that \<open>interpolateVertex\<close> returns.\<close>

definition interpolated :: "real \<Rightarrow> vec3 \<Rightarrow> vec3 \<Rightarrow> real \<Rightarrow> real \<Rightarrow> vec3" where
  "interpolated isoL p1 p2 v1 v2 =
     (if \<bar>isoL - v1\<bar> < 0.00001 then p1
      else if \<bar>isoL - v2\<bar> < 0.00001 then p2
      else if \<bar>v1 - v2\<bar> < 0.00001 then p1
      else lerpVectors p1 p2 ((isoL - v1) / (v2 - v1)))"

definition cornerPoint :: "params \<Rightarrow> nat \<Rightarrow> nat \<Rightarrow> nat \<Rightarrow> nat \<Rightarrow> vec3" where
  "cornerPoint ps i j k c =
     Vector3 (- volumeRadius ps + real i * cellSizeOf ps
                + cellSizeOf ps * of_bool (bit c 0 \<noteq> bit c 1))
             (- volumeRadius ps + real j * cellSizeOf ps + cellSizeOf ps * of_bool (bit c 1))
             (- volumeRadius ps + real k * cellSizeOf ps + cellSizeOf ps * of_bool (bit c 2))"

definition cubeIndexOf :: "real \<Rightarrow> (nat \<Rightarrow> real) \<Rightarrow> nat" where
  "cubeIndexOf isoL vals =
     fold (\<lambda>c cubeIndex. if vals c < isoL then cubeIndex OR push_bit c 1 else cubeIndex) [0..<8] 0"

definition cellIndex :: "params \<Rightarrow> (vec3 \<Rightarrow> real) \<Rightarrow> nat \<Rightarrow> nat \<Rightarrow> nat \<Rightarrow> nat" where
  "cellIndex ps f i j k = cubeIndexOf (isoLevel ps) (\<lambda>c. f (cornerPoint ps i j k c))"

definition edgePoint :: "params \<Rightarrow> (vec3 \<Rightarrow> real) \<Rightarrow> nat \<Rightarrow> nat \<Rightarrow> nat \<Rightarrow> nat \<Rightarrow> vec3" where
  "edgePoint ps f i j k e =
     (let a = fst (edgeCorners ! e);
          b = snd (edgeCorners ! e)
      in interpolated (isoLevel ps) (cornerPoint ps i j k a) (cornerPoint ps i j k b)
           (f (cornerPoint ps i j k a)) (f (cornerPoint ps i j k b)))"

text \<open>
  The coordinates pushed for one row of \<open>triTable\<close>.  The three normals of a triangle are
  read from \<open>normal_h\<close> after the third call of \<open>estimateNormal\<close>, so all three are the
  normal at the third vertex, which is the first edge of the triple.
\<close>

fun rowVertices :: "(nat \<Rightarrow> vec3) \<Rightarrow> int list \<Rightarrow> real list" where
  "rowVertices pts (a # b # c # rest) =
     (if a = - 1 then []
      else pushVec (pushVec (pushVec [] (pts (nat c))) (pts (nat b))) (pts (nat a))
           @ rowVertices pts rest)"
| "rowVertices pts row = []"

fun rowNormals :: "(vec3 \<Rightarrow> real) \<Rightarrow> (nat \<Rightarrow> vec3) \<Rightarrow> int list \<Rightarrow> real list" where
  "rowNormals f pts (a # b # c # rest) =
     (if a = - 1 then []
      else pushVec (pushVec (pushVec [] (gradientNormal f (pts (nat a))))
                      (gradientNormal f (pts (nat a)))) (gradientNormal f (pts (nat a)))
           @ rowNormals f pts rest)"
| "rowNormals f pts row = []"

definition cellVertices :: "params \<Rightarrow> tables \<Rightarrow> (vec3 \<Rightarrow> real) \<Rightarrow> nat \<Rightarrow> nat \<Rightarrow> nat \<Rightarrow> real list" where
  "cellVertices ps tabs f i j k =
     (let cubeIndex = cellIndex ps f i j k
      in if edgeTable tabs cubeIndex = 0 then []
         else rowVertices (edgePoint ps f i j k) (triTable tabs cubeIndex))"

definition cellNormals :: "params \<Rightarrow> tables \<Rightarrow> (vec3 \<Rightarrow> real) \<Rightarrow> nat \<Rightarrow> nat \<Rightarrow> nat \<Rightarrow> real list" where
  "cellNormals ps tabs f i j k =
     (let cubeIndex = cellIndex ps f i j k
      in if edgeTable tabs cubeIndex = 0 then []
         else rowNormals f (edgePoint ps f i j k) (triTable tabs cubeIndex))"

definition overGrid :: "nat \<Rightarrow> (nat \<Rightarrow> nat \<Rightarrow> nat \<Rightarrow> real list) \<Rightarrow> real list" where
  "overGrid n g =
     concat (map (\<lambda>i. concat (map (\<lambda>j. concat (map (\<lambda>k. g i j k) [0..<n])) [0..<n])) [0..<n])"

definition meshVertices :: "params \<Rightarrow> tables \<Rightarrow> (vec3 \<Rightarrow> real) \<Rightarrow> real list" where
  "meshVertices ps tabs f = overGrid (nat (cellsPerAxis ps)) (cellVertices ps tabs f)"

definition meshNormals :: "params \<Rightarrow> tables \<Rightarrow> (vec3 \<Rightarrow> real) \<Rightarrow> real list" where
  "meshNormals ps tabs f = overGrid (nat (cellsPerAxis ps)) (cellNormals ps tabs f)"

text \<open>
  What the code relies on in the tables it imports: every row of \<open>triTable\<close> whose case
  has a non-zero edge mask is a sequence of triples closed by \<open>-1\<close>, and every edge a
  triple names is one of the twelve edges and has its bit set in the mask.
\<close>

definition edgeActive :: "nat \<Rightarrow> int \<Rightarrow> bool" where
  "edgeActive em a = (0 \<le> a \<and> a < 12 \<and> em AND 2 ^ nat a \<noteq> 0)"

fun rowOk :: "nat \<Rightarrow> int list \<Rightarrow> bool" where
  "rowOk em [] = False"
| "rowOk em (a # rest) =
     (a = - 1 \<or>
      (case rest of
         b # c # rest' \<Rightarrow> edgeActive em a \<and> edgeActive em b \<and> edgeActive em c \<and> rowOk em rest'
       | _ \<Rightarrow> False))"

definition tablesConsistent :: "tables \<Rightarrow> bool" where
  "tablesConsistent tabs =
     list_all (\<lambda>c. edgeTable tabs c = 0 \<or> rowOk (edgeTable tabs c) (triTable tabs c)) [0..<256]"

text \<open>The two scratch arrays keep the lengths they are created with.\<close>

definition wellFormed :: "state \<Rightarrow> bool" where
  "wellFormed st = (length (cornerValues st) = 8 \<and> length (edgeIntersection st) = 12)"

text \<open>
  Invariants of a cell.  A reference is stable when no later step of the cell writes to
  its object: a corner, or an object allocated earlier.  The first \<open>n\<close> edges are ready
  when every one of them with its bit in the mask holds a stable reference to its point.
\<close>

definition stableRef :: "state \<Rightarrow> ref \<Rightarrow> bool" where
  "stableRef st r = (case r of Corner c \<Rightarrow> True | Fresh m \<Rightarrow> m < nextFresh st | _ \<Rightarrow> False)"

definition edgesReady :: "nat \<Rightarrow> (nat \<Rightarrow> vec3) \<Rightarrow> nat \<Rightarrow> state \<Rightarrow> bool" where
  "edgesReady em pts n st =
     (length (edgeIntersection st) = 12 \<and>
      (\<forall>e<n. em AND 2 ^ e \<noteq> 0 \<longrightarrow>
         stableRef st (edgeIntersection st ! e) \<and> heap st (edgeIntersection st ! e) = pts e))"

text \<open>The point of edge \<open>e\<close>, read off the corners that a state holds.\<close>

definition edgeValue :: "params \<Rightarrow> (vec3 \<Rightarrow> real) \<Rightarrow> state \<Rightarrow> nat \<Rightarrow> vec3" where
  "edgeValue ps f st e =
     interpolated (isoLevel ps)
       (heap st (Corner (fst (edgeCorners ! e)))) (heap st (Corner (snd (edgeCorners ! e))))
       (f (heap st (Corner (fst (edgeCorners ! e))))) (f (heap st (Corner (snd (edgeCorners ! e)))))"

section \<open>Concrete inputs\<close>

text \<open>The values the source gives \<open>params\<close>.\<close>

definition defaultParams :: params where
  "defaultParams =
     \<lparr> sphereCount = 10, smoothK = 0.075, params.speed = 0.15, targetRadius = 0.0125,
       radiusVariance = 0.125, cellsPerAxis = 40, volumeRadius = 0.175, isoLevel = 0.0 \<rparr>"

text \<open>Two emitters on the x axis, used to run the definitions on concrete numbers.\<close>

definition sphereA :: sphere where
  "sphereA = \<lparr> position = Vector3 0 0 0, target = Vector3 0 0 0, radius = 1, sphere.speed = 1 \<rparr>"

definition sphereB :: sphere where
  "sphereB = \<lparr> position = Vector3 2 0 0, target = Vector3 2 0 0, radius = 1, sphere.speed = 1 \<rparr>"

text \<open>The globals as the module creates them.\<close>

definition initState :: state where
  "initState =
     \<lparr> heap = (\<lambda>r. Vector3 0 0 0), nextFresh = 0, cornerValues = replicate 8 0,
       edgeIntersection = map EdgeSlot [0..<12], vertices = [], normals = [],
       spheres = [], draws = 0 \<rparr>"

text \<open>A generator that always returns one half, and a state with two emitters.\<close>

definition halfRandom :: random where
  "halfRandom n = 1 / 2"

text \<open>A generator that cycles through 0, 1/4, 1/2 and 3/4.\<close>

definition rampRandom :: random where
  "rampRandom n = real (n mod 4) / 4"

definition sphereC :: sphere where
  "sphereC = \<lparr> position = Vector3 0 0 0, target = Vector3 2 0 0, radius = 1, sphere.speed = 1 \<rparr>"

definition kinState :: state where
  "kinState = initState\<lparr>spheres := [sphereA, sphereC]\<rparr>"

text \<open>
  A grid of one cell over \<open>[-1, 1]\<close> cubed, with one emitter of radius 1 centred on
  corner 0 of the cell: only that corner is inside the surface, which is case 1.  The
  tables here carry the entries of the standard marching-cubes tables for case 1 (edge
  mask \<open>0x109\<close>, triangle \<open>0, 8, 3\<close>) and an empty row for every other case.
\<close>

definition oneCellParams :: params where
  "oneCellParams = defaultParams\<lparr>cellsPerAxis := 1, volumeRadius := 1\<rparr>"

definition cornerSphere :: sphere where
  "cornerSphere =
     \<lparr> position = Vector3 (- 1) (- 1) (- 1), target = Vector3 (- 1) (- 1) (- 1),
       radius = 1, sphere.speed = 1 \<rparr>"

definition cornerSphereState :: state where
  "cornerSphereState = initState\<lparr>spheres := [cornerSphere]\<rparr>"

definition caseOneTables :: tables where
  "caseOneTables =
     \<lparr> edgeTable = (\<lambda>c. if c = 1 then 265 else 0),
       triTable = (\<lambda>c. if c = 1
                        then [0, 8, 3, - 1, - 1, - 1, - 1, - 1, - 1, - 1, - 1, - 1, - 1, - 1, - 1, - 1]
                        else replicate 16 (- 1)) \<rparr>"

abbreviation cornerSphereField :: "vec3 \<Rightarrow> real" where
  "cornerSphereField \<equiv> fieldValue oneCellParams (spheres cornerSphereState)"

section \<open>The smooth minimum\<close>

lemma smin_le_both:
  assumes k: "0 < k"
  shows "smin a b k \<le> a \<and> smin a b k \<le> b"
proof -
  define t where "t = 0.5 + 0.5 * (b - a) / k"
  have kt: "k * t = (k + (b - a)) / 2"
    using k by (simp add: t_def field_simps)
  have unf: "smin a b k =
      a * max 0 (min 1 t) + b * (1 - max 0 (min 1 t)) - k * max 0 (min 1 t) * (1 - max 0 (min 1 t))"
    by (simp add: smin_def Let_def t_def)
  consider (lo) "t \<le> 0" | (hi) "1 \<le> t" | (mid) "0 < t" "t < 1"
    by linarith
  then show ?thesis
  proof cases
    case lo
    then have "k * t \<le> 0"
      using k by (simp add: mult_le_0_iff)
    then have "(k + (b - a)) / 2 \<le> 0" by (simp only: kt)
    then have "b \<le> a" using k by simp
    moreover have "smin a b k = b" using lo by (simp add: unf)
    ultimately show ?thesis by simp
  next
    case hi
    then have "k * 1 \<le> k * t"
      using k by (simp only: mult_le_cancel_left_pos)
    then have "k \<le> (k + (b - a)) / 2" by (simp only: kt mult_1_right)
    then have "a \<le> b" using k by simp
    moreover have "smin a b k = a" using hi by (simp add: unf)
    ultimately show ?thesis by simp
  next
    case mid
    then have s: "smin a b k = a * t + b * (1 - t) - k * t * (1 - t)"
      by (simp add: unf)
    have "k * t < k * 1" using mid k by (simp only: mult_less_cancel_left_pos)
    then have "(k + (b - a)) / 2 < k" by (simp only: kt mult_1_right)
    then have ba: "b - a < k" by simp
    have "0 < k * t" using mid k by simp
    then have "0 < (k + (b - a)) / 2" by (simp only: kt)
    then have ab: "a - b < k" by simp
    have "smin a b k - a = (1 - t) * (b - a - k * t)"
      by (simp add: s algebra_simps)
    also have "\<dots> = (1 - t) * ((b - a - k) / 2)"
      by (simp add: kt field_simps)
    also have "\<dots> \<le> 0"
      using mid ba by (intro mult_nonneg_nonpos) simp_all
    finally have le_a: "smin a b k \<le> a" by simp
    have "smin a b k - b = t * (a - b - k + k * t)"
      by (simp add: s algebra_simps)
    also have "\<dots> = t * ((a - b - k) / 2)"
      by (simp add: kt field_simps)
    also have "\<dots> \<le> 0"
      using mid ab by (intro mult_nonneg_nonpos) simp_all
    finally have le_b: "smin a b k \<le> b" by simp
    from le_a le_b show ?thesis by simp
  qed
qed

lemma smin_sentinel:
  assumes k: "0 < k" and d: "d \<le> 1000000000 - k"
  shows "smin 1000000000 d k = d"
proof -
  have "(d - 1000000000) / k \<le> - 1"
    using k d by (simp add: field_simps)
  then have "0.5 + 0.5 * (d - 1000000000) / k \<le> 0"
    by simp
  then have "max 0 (min 1 (0.5 + 0.5 * (d - 1000000000) / k)) = 0"
    by simp
  then show ?thesis
    by (simp add: smin_def Let_def)
qed

lemma fold_fieldStep_le_init:
  "0 < smoothK ps \<Longrightarrow> fold (fieldStep ps w) ss d \<le> d"
proof (induction ss arbitrary: d)
  case Nil
  then show ?case by simp
next
  case (Cons s ss)
  have "fold (fieldStep ps w) ss (fieldStep ps w s d) \<le> fieldStep ps w s d"
    using Cons by blast
  also have "\<dots> \<le> d"
    using smin_le_both [OF Cons.prems] by (simp add: fieldStep_def Let_def)
  finally show ?case by simp
qed

lemma fold_fieldStep_le_sdf:
  "0 < smoothK ps \<Longrightarrow> s \<in> set ss \<Longrightarrow>
   fold (fieldStep ps w) ss d \<le> sdf_sphere w (position s) (radius s)"
proof (induction ss arbitrary: d)
  case Nil
  then show ?case by simp
next
  case (Cons a ss)
  show ?case
  proof (cases "s = a")
    case True
    have "fold (fieldStep ps w) ss (fieldStep ps w a d) \<le> fieldStep ps w a d"
      using Cons.prems(1) by (rule fold_fieldStep_le_init)
    also have "\<dots> \<le> sdf_sphere w (position a) (radius a)"
      using smin_le_both [OF Cons.prems(1)] by (simp add: fieldStep_def Let_def)
    finally show ?thesis using True by simp
  next
    case False
    then have "s \<in> set ss" using Cons.prems(2) by simp
    then show ?thesis using Cons.IH [OF Cons.prems(1)] by simp
  qed
qed

lemma sdf_sphereA: "sdf_sphere (Vector3 0 0 0) (position sphereA) (radius sphereA) = - 1"
  by (simp add: sdf_sphere_def distanceTo_def sphereA_def)

lemma sdf_sphereB: "sdf_sphere (Vector3 0 0 0) (position sphereB) (radius sphereB) = 1"
  by (simp add: sdf_sphere_def distanceTo_def sphereB_def)

section \<open>Claims about the field\<close>

text \<open>
  C4.  For a non-empty emitter list, a positive smoothing factor and per-emitter distances
  of at most \<open>1e9 - k\<close>, the fold of \<open>fieldValue\<close> that starts from the sentinel \<open>1e9\<close>
  computes the same number as the specification's fold that starts from the distance to
  the first emitter.
\<close>

theorem fieldValue_refines_spec:
  assumes "ss \<noteq> []"
    and "0 < smoothK ps"
    and "\<forall>s \<in> set ss.
           sdf_sphere worldPos (position s) (radius s) \<le> 1000000000 - smoothK ps"
  shows "fieldValue_spec ps ss worldPos = Some (fieldValue ps ss worldPos)"
proof -
  from assms(1) obtain s0 rest where sp: "ss = s0 # rest"
    by (cases ss) auto
  have "sdf_sphere worldPos (position s0) (radius s0) \<le> 1000000000 - smoothK ps"
    using assms(3) sp by simp
  then have "fieldStep ps worldPos s0 1000000000 = sdf_sphere worldPos (position s0) (radius s0)"
    using smin_sentinel [OF assms(2)] by (simp add: fieldStep_def Let_def)
  then show ?thesis
    by (simp add: sp fieldValue_spec_def fieldValue_def)
qed


theorem fieldValue_refines_spec_witness:
  "[sphereA, sphereB] \<noteq> [] \<and> 0 < smoothK defaultParams
   \<and> sdf_sphere (Vector3 0 0 0) (position sphereA) (radius sphereA)
         \<le> 1000000000 - smoothK defaultParams
   \<and> sdf_sphere (Vector3 0 0 0) (position sphereB) (radius sphereB)
         \<le> 1000000000 - smoothK defaultParams
   \<and> fieldValue_spec defaultParams [sphereA, sphereB] (Vector3 0 0 0)
       = Some (fieldValue defaultParams [sphereA, sphereB] (Vector3 0 0 0))"
  using fieldValue_refines_spec [of "[sphereA, sphereB]" defaultParams "Vector3 0 0 0"]
  by (simp add: sdf_sphereA sdf_sphereB defaultParams_def)

text \<open>
  C5.  For a non-empty emitter list and a positive smoothing factor, \<open>fieldValue\<close> never
  exceeds the least of the per-emitter sphere distances at the point; and \<open>smin a b k\<close>
  never exceeds \<open>min a b\<close> when \<open>k\<close> is positive.
\<close>

theorem fieldValue_le_min_sdf:
  assumes "ss \<noteq> []" and "0 < smoothK ps"
  shows "fieldValue ps ss worldPos
           \<le> Min ((\<lambda>s. sdf_sphere worldPos (position s) (radius s)) ` set ss)
         \<and> (0 < k \<longrightarrow> smin a b k \<le> min a b)"
proof -
  have "\<forall>s \<in> set ss.
          fieldValue ps ss worldPos \<le> sdf_sphere worldPos (position s) (radius s)"
    using assms(2) by (simp add: fieldValue_def fold_fieldStep_le_sdf)
  then have "fieldValue ps ss worldPos
           \<le> Min ((\<lambda>s. sdf_sphere worldPos (position s) (radius s)) ` set ss)"
    using assms(1) by (simp add: Min_ge_iff)
  moreover have "0 < k \<longrightarrow> smin a b k \<le> min a b"
    using smin_le_both [of k a b] by simp
  ultimately show ?thesis by simp
qed

theorem fieldValue_le_min_sdf_witness:
  "[sphereA, sphereB] \<noteq> [] \<and> 0 < smoothK defaultParams
   \<and> fieldValue defaultParams [sphereA, sphereB] (Vector3 0 0 0)
       \<le> Min ((\<lambda>s. sdf_sphere (Vector3 0 0 0) (position s) (radius s)) ` set [sphereA, sphereB])
   \<and> (0 < (1::real) \<and> smin 3 4 1 \<le> min 3 4)"
  using fieldValue_le_min_sdf [of "[sphereA, sphereB]" defaultParams "Vector3 0 0 0" 1 3 4]
  by (simp add: defaultParams_def)

section \<open>Claims about edge interpolation\<close>

text \<open>
  C6.  When both corner values are the same number \<open>v\<close>, \<open>interpolateVertex\<close> returns the
  object \<open>p1\<close> itself and allocates nothing, whatever the iso level: through the first
  guard when the iso level is within \<open>1e-5\<close> of \<open>v\<close>, through the third otherwise.
\<close>

theorem interpolateVertex_equal_values:
  "interpolateVertex ps p1 p2 v v st = (p1, st)"
  by (simp add: interpolateVertex_def)

section \<open>Sphere kinematics\<close>

lemma scaled_draw_range:
  assumes "0 \<le> u" "u < 1" "0 \<le> (b::real)"
  shows "- b \<le> (u - 0.5) * b * 2 \<and> (u - 0.5) * b * 2 \<le> b"
proof -
  have e: "(u - 0.5) * b * 2 = (2 * u - 1) * b" by (simp add: algebra_simps)
  have "(2 * u - 1) * b \<le> 1 * b"
    using assms by (intro mult_right_mono) simp_all
  moreover have "(- 1) * b \<le> (2 * u - 1) * b"
    using assms by (intro mult_right_mono) simp_all
  ultimately show ?thesis unfolding e by simp
qed

lemma spheres_vset [simp]: "spheres (vset r v st) = spheres st"
  and draws_vset [simp]: "draws (vset r v st) = draws st"
  and heap_vset [simp]: "heap (vset r v st) = (heap st)(r := v)"
  by (simp_all add: vset_def)

lemma vlength_A: "vlength (subVectors (target sphereA) (position sphereA)) = 0"
  by (simp add: vlength_def subVectors_def sphereA_def)

lemma vlength_C: "vlength (subVectors (target sphereC) (position sphereC)) = 2"
  by (simp add: vlength_def subVectors_def sphereC_def)

lemma normalize_C: "normalize (subVectors (target sphereC) (position sphereC)) = Vector3 1 0 0"
  by (simp add: normalize_def Let_def vlength_C multiplyScalar_def) (simp add: subVectors_def sphereC_def)

lemma upt_0_2: "[0..<2] = [0, Suc 0]"
  by (simp add: upt_conv_Cons numeral_2_eq_2)

lemma spheres_fold_push:
  "spheres (fold (pushSphere ps rnd) [0..<n] st)
     = spheres st @ map (\<lambda>i. newSphere ps rnd (draws st + 8 * i)) [0..<n]
   \<and> draws (fold (pushSphere ps rnd) [0..<n] st) = draws st + 8 * n"
proof (induction n)
  case 0
  then show ?case by simp
next
  case (Suc n)
  then show ?case by (simp add: pushSphere_def)
qed

lemma newSphere_ranges:
  assumes r: "\<forall>n. 0 \<le> rnd n \<and> rnd n < 1"
    and b: "0 \<le> paddedBounds ps"
    and tr: "0 \<le> targetRadius ps" and var: "0 \<le> radiusVariance ps" and sp: "0 \<le> params.speed ps"
  shows "- paddedBounds ps \<le> vx (position (newSphere ps rnd n))"
    "vx (position (newSphere ps rnd n)) \<le> paddedBounds ps"
    "- paddedBounds ps \<le> vy (position (newSphere ps rnd n))"
    "vy (position (newSphere ps rnd n)) \<le> paddedBounds ps"
    "- paddedBounds ps \<le> vz (position (newSphere ps rnd n))"
    "vz (position (newSphere ps rnd n)) \<le> paddedBounds ps"
    "- paddedBounds ps \<le> vx (target (newSphere ps rnd n))"
    "vx (target (newSphere ps rnd n)) \<le> paddedBounds ps"
    "- paddedBounds ps \<le> vy (target (newSphere ps rnd n))"
    "vy (target (newSphere ps rnd n)) \<le> paddedBounds ps"
    "- paddedBounds ps \<le> vz (target (newSphere ps rnd n))"
    "vz (target (newSphere ps rnd n)) \<le> paddedBounds ps"
    "targetRadius ps * (1 - radiusVariance ps) \<le> radius (newSphere ps rnd n)"
    "radius (newSphere ps rnd n) \<le> targetRadius ps * (1 + radiusVariance ps)"
    "0.5 * params.speed ps \<le> sphere.speed (newSphere ps rnd n)"
    "sphere.speed (newSphere ps rnd n) \<le> 1.5 * params.speed ps"
proof -
  have d: "\<And>m. - paddedBounds ps \<le> (rnd m - 0.5) * paddedBounds ps * 2
            \<and> (rnd m - 0.5) * paddedBounds ps * 2 \<le> paddedBounds ps"
    using scaled_draw_range [OF _ _ b] r by blast
  show "- paddedBounds ps \<le> vx (position (newSphere ps rnd n))"
    "vx (position (newSphere ps rnd n)) \<le> paddedBounds ps"
    "- paddedBounds ps \<le> vy (position (newSphere ps rnd n))"
    "vy (position (newSphere ps rnd n)) \<le> paddedBounds ps"
    "- paddedBounds ps \<le> vz (position (newSphere ps rnd n))"
    "vz (position (newSphere ps rnd n)) \<le> paddedBounds ps"
    "- paddedBounds ps \<le> vx (target (newSphere ps rnd n))"
    "vx (target (newSphere ps rnd n)) \<le> paddedBounds ps"
    "- paddedBounds ps \<le> vy (target (newSphere ps rnd n))"
    "vy (target (newSphere ps rnd n)) \<le> paddedBounds ps"
    "- paddedBounds ps \<le> vz (target (newSphere ps rnd n))"
    "vz (target (newSphere ps rnd n)) \<le> paddedBounds ps"
    using d by (simp_all add: newSphere_def Let_def paddedBounds_def)
  have tv: "0 \<le> radiusVariance ps * targetRadius ps" using tr var by simp
  have rr: "radius (newSphere ps rnd n)
      = targetRadius ps + (rnd n - 0.5) * (radiusVariance ps * targetRadius ps) * 2"
    by (simp add: newSphere_def Let_def algebra_simps)
  have "- (radiusVariance ps * targetRadius ps)
          \<le> (rnd n - 0.5) * (radiusVariance ps * targetRadius ps) * 2
      \<and> (rnd n - 0.5) * (radiusVariance ps * targetRadius ps) * 2
          \<le> radiusVariance ps * targetRadius ps"
    using scaled_draw_range [OF _ _ tv] r by blast
  then show "targetRadius ps * (1 - radiusVariance ps) \<le> radius (newSphere ps rnd n)"
    "radius (newSphere ps rnd n) \<le> targetRadius ps * (1 + radiusVariance ps)"
    unfolding rr by (simp_all add: algebra_simps)
  have u: "0 \<le> rnd (n + 7)" "rnd (n + 7) < 1" using r by simp_all
  have "0.5 * params.speed ps \<le> (0.5 + rnd (n + 7)) * params.speed ps"
    using u sp by (intro mult_right_mono) simp_all
  moreover have "(0.5 + rnd (n + 7)) * params.speed ps \<le> 1.5 * params.speed ps"
    using u sp by (intro mult_right_mono) simp_all
  ultimately show "0.5 * params.speed ps \<le> sphere.speed (newSphere ps rnd n)"
    "sphere.speed (newSphere ps rnd n) \<le> 1.5 * params.speed ps"
    by (simp_all add: newSphere_def Let_def)
qed

lemma updateSphere_step:
  "spheres (updateSphere ps rnd dt i st)
     = (spheres st)[i := stepSphere ps rnd dt (spheres st ! i) (draws st)]"
  "draws (updateSphere ps rnd dt i st)
     = draws st + (if resamples dt (spheres st ! i) then 3 else 0)"
  by (simp_all add: updateSphere_def stepSphere_def resamples_def randomTarget_def Let_def)

lemma updateSpheres_prefix:
  "m \<le> length (spheres st) \<Longrightarrow>
   length (spheres (fold (updateSphere ps rnd dt) [0..<m] st)) = length (spheres st)
   \<and> draws (fold (updateSphere ps rnd dt) [0..<m] st)
       = draws st + 3 * length (filter (resamples dt) (take m (spheres st)))
   \<and> (\<forall>j<length (spheres st).
         spheres (fold (updateSphere ps rnd dt) [0..<m] st) ! j
           = (if j < m
              then stepSphere ps rnd dt (spheres st ! j)
                     (draws st + 3 * length (filter (resamples dt) (take j (spheres st))))
              else spheres st ! j))"
proof (induction m)
  case 0
  then show ?case by simp
next
  case (Suc m)
  define st1 where "st1 = fold (updateSphere ps rnd dt) [0..<m] st"
  from Suc have m: "m < length (spheres st)"
    and len: "length (spheres st1) = length (spheres st)"
    and dr: "draws st1 = draws st + 3 * length (filter (resamples dt) (take m (spheres st)))"
    and nth: "\<And>j. j < length (spheres st) \<Longrightarrow> spheres st1 ! j
           = (if j < m
              then stepSphere ps rnd dt (spheres st ! j)
                     (draws st + 3 * length (filter (resamples dt) (take j (spheres st))))
              else spheres st ! j)"
    by (simp_all add: st1_def)
  have cur: "spheres st1 ! m = spheres st ! m" using nth [OF m] by simp
  have f: "fold (updateSphere ps rnd dt) [0..<Suc m] st = updateSphere ps rnd dt m st1"
    by (simp add: st1_def)
  have tk: "take (Suc m) (spheres st) = take m (spheres st) @ [spheres st ! m]"
    using m by (rule take_Suc_conv_app_nth)
  have "length (spheres (updateSphere ps rnd dt m st1)) = length (spheres st)"
    by (simp add: updateSphere_step len)
  moreover have "draws (updateSphere ps rnd dt m st1)
       = draws st + 3 * length (filter (resamples dt) (take (Suc m) (spheres st)))"
    by (simp add: updateSphere_step dr cur tk)
  moreover have "spheres (updateSphere ps rnd dt m st1) ! j
           = (if j < Suc m
              then stepSphere ps rnd dt (spheres st ! j)
                     (draws st + 3 * length (filter (resamples dt) (take j (spheres st))))
              else spheres st ! j)" if j: "j < length (spheres st)" for j
  proof (cases "j = m")
    case True
    then show ?thesis using m by (simp add: updateSphere_step len cur dr)
  next
    case False
    then show ?thesis using nth [OF j] by (auto simp add: updateSphere_step)
  qed
  ultimately show ?case unfolding f by blast
qed


lemma rampRandom_range: "0 \<le> rampRandom m \<and> rampRandom m < 1"
proof -
  have "m mod 4 < 4" by simp
  then have "real (m mod 4) < 4" by (simp only: of_nat_less_numeral_iff)
  then show ?thesis by (simp add: rampRandom_def)
qed

lemma rampRandom_values:
  "rampRandom 0 = 0" "rampRandom (Suc 0) = 1 / 4" "rampRandom 2 = 1 / 2"
  "rampRandom 3 = 3 / 4" "rampRandom 4 = 0" "rampRandom 5 = 1 / 4"
  by (simp_all add: rampRandom_def)

lemma kinState_spheres: "spheres kinState = [sphereA, sphereC]"
  by (simp add: kinState_def)

lemma kinState_draws: "draws kinState = 0"
  by (simp add: kinState_def initState_def)

lemma defaultParams_bounds:
  "volumeRadius defaultParams - volumeRadius defaultParams * (0.3 + 3 * smoothK defaultParams)
     = 133 / 1600"
  by (simp add: defaultParams_def)

section \<open>Claims about the kinematics\<close>

text \<open>
  C7.  One call of \<open>updateSpheres\<close> visits every emitter once and leaves the others as
  they are while it handles one.  For the emitter at index \<open>i\<close>: when its target is closer
  than \<open>1e-3\<close> the target is redrawn and the position stays; otherwise, when the step
  \<open>speed * dt\<close> reaches the target, the position becomes the target and the target is
  redrawn; otherwise the position advances by the normalized direction times the step.  A
  step of zero leaves the position as it is.  A redrawn target has the coordinates
  \<open>(u - 0.5) * bounds * 2\<close> for three successive results \<open>u\<close> of \<open>Math.random()\<close>, with
  \<open>bounds = R - padding\<close> and \<open>padding = R * (0.3 + 3 k)\<close>: the three calls that follow those
  used by the emitters before it, three for each of them that redraws.  The coordinates lie
  in \<open>[-bounds, bounds]\<close> when the results lie in \<open>[0, 1)\<close> and \<open>bounds\<close> is not negative.
\<close>

theorem updateSpheres_tick:
  assumes "i < length (spheres st)"
  shows "(let s = spheres st ! i;
              padding = volumeRadius ps * (0.3 + 3 * smoothK ps);
              bounds = volumeRadius ps - padding;
              toTarget = subVectors (target s) (position s);
              redraws = (\<lambda>u::sphere. vlength (subVectors (target u) (position u)) < 0.001
                           \<or> sphere.speed u * dt \<ge> vlength (subVectors (target u) (position u)));
              n = draws st + 3 * length (filter redraws (take i (spheres st)));
              redrawn = Vector3 ((rnd n - 0.5) * bounds * 2)
                                ((rnd (n + 1) - 0.5) * bounds * 2)
                                ((rnd (n + 2) - 0.5) * bounds * 2);
              st' = updateSpheres ps rnd dt st;
              s' = spheres st' ! i
          in length (spheres st') = length (spheres st)
           \<and> draws st' = draws st + 3 * length (filter redraws (spheres st))
           \<and> (vlength toTarget < 0.001 \<longrightarrow> s' = s\<lparr>target := redrawn\<rparr>)
           \<and> (\<not> vlength toTarget < 0.001 \<and> sphere.speed s * dt \<ge> vlength toTarget \<longrightarrow>
                s' = s\<lparr>position := target s, target := redrawn\<rparr>)
           \<and> (\<not> vlength toTarget < 0.001 \<and> \<not> sphere.speed s * dt \<ge> vlength toTarget \<longrightarrow>
                s' = s\<lparr>position := vadd (position s)
                                    (multiplyScalar (normalize toTarget) (sphere.speed s * dt))\<rparr>)
           \<and> (sphere.speed s * dt = 0 \<longrightarrow> position s' = position s)
           \<and> ((\<forall>m. 0 \<le> rnd m \<and> rnd m < 1) \<and> 0 \<le> bounds \<longrightarrow>
                - bounds \<le> vx redrawn \<and> vx redrawn \<le> bounds
                \<and> - bounds \<le> vy redrawn \<and> vy redrawn \<le> bounds
                \<and> - bounds \<le> vz redrawn \<and> vz redrawn \<le> bounds))"
proof -
  define s where "s = spheres st ! i"
  define bounds where "bounds = volumeRadius ps - volumeRadius ps * (0.3 + 3 * smoothK ps)"
  define toTarget where "toTarget = subVectors (target s) (position s)"
  define redraws where "redraws = (\<lambda>u::sphere. vlength (subVectors (target u) (position u)) < 0.001
      \<or> sphere.speed u * dt \<ge> vlength (subVectors (target u) (position u)))"
  define n where "n = draws st + 3 * length (filter redraws (take i (spheres st)))"
  define redrawn where "redrawn = Vector3 ((rnd n - 0.5) * bounds * 2)
      ((rnd (n + 1) - 0.5) * bounds * 2) ((rnd (n + 2) - 0.5) * bounds * 2)"
  define st' where "st' = updateSpheres ps rnd dt st"
  define s' where "s' = spheres st' ! i"
  have rs: "resamples dt = redraws"
    by (intro ext) (simp add: resamples_def redraws_def)
  from updateSpheres_prefix [of "length (spheres st)" st ps rnd dt]
  have len: "length (spheres st') = length (spheres st)"
    and dr: "draws st' = draws st + 3 * length (filter redraws (spheres st))"
    and nth: "s' = stepSphere ps rnd dt s n"
    using assms by (simp_all add: st'_def updateSpheres_def rs s'_def s_def n_def)
  have bd: "volumeRadius ps - volumeRadius ps * (0.3 + smoothK ps * 3) = bounds"
    by (simp add: bounds_def algebra_simps)
  have c1: "vlength toTarget < 0.001 \<longrightarrow> s' = s\<lparr>target := redrawn\<rparr>"
    by (simp add: nth stepSphere_def Let_def bd toTarget_def redrawn_def)
  have c2: "\<not> vlength toTarget < 0.001 \<and> sphere.speed s * dt \<ge> vlength toTarget \<longrightarrow>
      s' = s\<lparr>position := target s, target := redrawn\<rparr>"
    by (simp add: nth stepSphere_def Let_def bd toTarget_def redrawn_def)
  have c3: "\<not> vlength toTarget < 0.001 \<and> \<not> sphere.speed s * dt \<ge> vlength toTarget \<longrightarrow>
      s' = s\<lparr>position := vadd (position s)
                 (multiplyScalar (normalize toTarget) (sphere.speed s * dt))\<rparr>"
    by (simp add: nth stepSphere_def Let_def bd toTarget_def redrawn_def)
  have c4: "sphere.speed s * dt = 0 \<longrightarrow> position s' = position s"
  proof
    assume z: "sphere.speed s * dt = 0"
    show "position s' = position s"
    proof (cases "vlength toTarget < 0.001")
      case True
      then show ?thesis using c1 by simp
    next
      case False
      then have "\<not> sphere.speed s * dt \<ge> vlength toTarget" unfolding z by simp
      then have "s' = s\<lparr>position := vadd (position s)
                 (multiplyScalar (normalize toTarget) (sphere.speed s * dt))\<rparr>"
        using False c3 by blast
      then show ?thesis
        by (cases "position s") (simp add: z vadd_def multiplyScalar_def)
    qed
  qed
  have c5: "(\<forall>m. 0 \<le> rnd m \<and> rnd m < 1) \<and> 0 \<le> bounds \<longrightarrow>
      - bounds \<le> vx redrawn \<and> vx redrawn \<le> bounds
      \<and> - bounds \<le> vy redrawn \<and> vy redrawn \<le> bounds
      \<and> - bounds \<le> vz redrawn \<and> vz redrawn \<le> bounds"
    using scaled_draw_range [of _ bounds] by (simp add: redrawn_def)
  show ?thesis
    unfolding Let_def
    using len dr c1 c2 c3 c4 c5
    unfolding s'_def st'_def redrawn_def n_def redraws_def toTarget_def bounds_def s_def
    by blast
qed

theorem updateSpheres_tick_witness:
  "0 < length (spheres kinState) \<and> 1 < length (spheres kinState)
   \<and> (\<forall>m. 0 \<le> rampRandom m \<and> rampRandom m < 1)
   \<and> 0 \<le> volumeRadius defaultParams
           - volumeRadius defaultParams * (0.3 + 3 * smoothK defaultParams)
   \<and> vlength (subVectors (target (spheres kinState ! 0)) (position (spheres kinState ! 0))) < 0.001
   \<and> spheres (updateSpheres defaultParams rampRandom 1 kinState) ! 0
       = sphereA\<lparr>target := Vector3 (- (133 / 1600)) (- (133 / 3200)) 0\<rparr>
   \<and> \<not> sphere.speed (spheres kinState ! 1) * 1
       \<ge> vlength (subVectors (target (spheres kinState ! 1)) (position (spheres kinState ! 1)))
   \<and> spheres (updateSpheres defaultParams rampRandom 1 kinState) ! 1
       = sphereC\<lparr>position := Vector3 1 0 0\<rparr>
   \<and> draws (updateSpheres defaultParams rampRandom 1 kinState) = 3
   \<and> sphere.speed (spheres kinState ! 1) * 3
       \<ge> vlength (subVectors (target (spheres kinState ! 1)) (position (spheres kinState ! 1)))
   \<and> spheres (updateSpheres defaultParams rampRandom 3 kinState) ! 1
       = sphereC\<lparr>position := Vector3 2 0 0,
                  target := Vector3 (133 / 3200) (- (133 / 1600)) (- (133 / 3200))\<rparr>
   \<and> draws (updateSpheres defaultParams rampRandom 3 kinState) = 6
   \<and> length (spheres (updateSpheres defaultParams rampRandom 3 kinState)) = 2
   \<and> sphere.speed (spheres kinState ! 1) * 0 = 0
   \<and> position (spheres (updateSpheres defaultParams rampRandom 0 kinState) ! 1) = Vector3 0 0 0"
  using updateSpheres_tick [of 0 kinState defaultParams 1 rampRandom]
    updateSpheres_tick [of 1 kinState defaultParams 1 rampRandom]
    updateSpheres_tick [of 1 kinState defaultParams 3 rampRandom]
    updateSpheres_tick [of 1 kinState defaultParams 0 rampRandom]
  by (simp add: kinState_spheres kinState_draws Let_def vlength_A vlength_C normalize_C
      rampRandom_range rampRandom_values defaultParams_bounds)
    (simp add: sphereC_def sphereA_def vadd_def multiplyScalar_def defaultParams_def
      rampRandom_def)

text \<open>
  C8.  After \<open>reseedSpheres\<close> with a count that is not negative, positive padded bounds,
  draws in \<open>[0, 1)\<close> and parameters that are not negative: the emitter list has exactly
  \<open>count\<close> elements, all of them new (the list is a function of the draws alone, the
  previous list does not enter it); positions and targets lie in the padded cube, radii in
  \<open>[targetRadius * (1 - variance), targetRadius * (1 + variance)]\<close> and speeds in
  \<open>[0.5 * speed, 1.5 * speed]\<close>.
\<close>

theorem reseedSpheres_fresh_set:
  assumes "0 \<le> count"
    and "\<forall>n. 0 \<le> rnd n \<and> rnd n < 1"
    and "0 < paddedBounds ps"
    and "0 \<le> targetRadius ps" and "0 \<le> radiusVariance ps" and "0 \<le> params.speed ps"
  shows "int (length (spheres (reseedSpheres ps rnd count st))) = count
    \<and> spheres (reseedSpheres ps rnd count st)
        = map (\<lambda>i. newSphere ps rnd (draws st + 8 * i)) [0..<nat count]
    \<and> (\<forall>s \<in> set (spheres (reseedSpheres ps rnd count st)).
          - paddedBounds ps \<le> vx (position s) \<and> vx (position s) \<le> paddedBounds ps
        \<and> - paddedBounds ps \<le> vy (position s) \<and> vy (position s) \<le> paddedBounds ps
        \<and> - paddedBounds ps \<le> vz (position s) \<and> vz (position s) \<le> paddedBounds ps
        \<and> - paddedBounds ps \<le> vx (target s) \<and> vx (target s) \<le> paddedBounds ps
        \<and> - paddedBounds ps \<le> vy (target s) \<and> vy (target s) \<le> paddedBounds ps
        \<and> - paddedBounds ps \<le> vz (target s) \<and> vz (target s) \<le> paddedBounds ps
        \<and> targetRadius ps * (1 - radiusVariance ps) \<le> radius s
        \<and> radius s \<le> targetRadius ps * (1 + radiusVariance ps)
        \<and> 0.5 * params.speed ps \<le> sphere.speed s
        \<and> sphere.speed s \<le> 1.5 * params.speed ps)"
proof -
  have eq: "spheres (reseedSpheres ps rnd count st)
        = map (\<lambda>i. newSphere ps rnd (draws st + 8 * i)) [0..<nat count]"
    using spheres_fold_push [of ps rnd "nat count" "st\<lparr>spheres := []\<rparr>"]
    by (simp add: reseedSpheres_def)
  have len: "int (length (spheres (reseedSpheres ps rnd count st))) = count"
    using assms(1) by (simp add: eq)
  have b: "0 \<le> paddedBounds ps" using assms(3) by simp
  note rg = newSphere_ranges [OF assms(2) b assms(4) assms(5) assms(6)]
  have "\<forall>s \<in> set (spheres (reseedSpheres ps rnd count st)).
          - paddedBounds ps \<le> vx (position s) \<and> vx (position s) \<le> paddedBounds ps
        \<and> - paddedBounds ps \<le> vy (position s) \<and> vy (position s) \<le> paddedBounds ps
        \<and> - paddedBounds ps \<le> vz (position s) \<and> vz (position s) \<le> paddedBounds ps
        \<and> - paddedBounds ps \<le> vx (target s) \<and> vx (target s) \<le> paddedBounds ps
        \<and> - paddedBounds ps \<le> vy (target s) \<and> vy (target s) \<le> paddedBounds ps
        \<and> - paddedBounds ps \<le> vz (target s) \<and> vz (target s) \<le> paddedBounds ps
        \<and> targetRadius ps * (1 - radiusVariance ps) \<le> radius s
        \<and> radius s \<le> targetRadius ps * (1 + radiusVariance ps)
        \<and> 0.5 * params.speed ps \<le> sphere.speed s
        \<and> sphere.speed s \<le> 1.5 * params.speed ps"
  proof
    fix s
    assume "s \<in> set (spheres (reseedSpheres ps rnd count st))"
    then obtain n where "s = newSphere ps rnd n"
      unfolding eq by auto
    then show "- paddedBounds ps \<le> vx (position s) \<and> vx (position s) \<le> paddedBounds ps
        \<and> - paddedBounds ps \<le> vy (position s) \<and> vy (position s) \<le> paddedBounds ps
        \<and> - paddedBounds ps \<le> vz (position s) \<and> vz (position s) \<le> paddedBounds ps
        \<and> - paddedBounds ps \<le> vx (target s) \<and> vx (target s) \<le> paddedBounds ps
        \<and> - paddedBounds ps \<le> vy (target s) \<and> vy (target s) \<le> paddedBounds ps
        \<and> - paddedBounds ps \<le> vz (target s) \<and> vz (target s) \<le> paddedBounds ps
        \<and> targetRadius ps * (1 - radiusVariance ps) \<le> radius s
        \<and> radius s \<le> targetRadius ps * (1 + radiusVariance ps)
        \<and> 0.5 * params.speed ps \<le> sphere.speed s
        \<and> sphere.speed s \<le> 1.5 * params.speed ps"
      using rg by blast
  qed
  with len eq show ?thesis by blast
qed

theorem reseedSpheres_fresh_set_witness:
  "(0::int) \<le> 2 \<and> (\<forall>n. 0 \<le> halfRandom n \<and> halfRandom n < 1)
   \<and> 0 < paddedBounds defaultParams
   \<and> 0 \<le> targetRadius defaultParams \<and> 0 \<le> radiusVariance defaultParams
   \<and> 0 \<le> params.speed defaultParams
   \<and> int (length (spheres (reseedSpheres defaultParams halfRandom 2 kinState))) = 2
   \<and> spheres (reseedSpheres defaultParams halfRandom 2 kinState)
       = [newSphere defaultParams halfRandom 0, newSphere defaultParams halfRandom 8]"
  using reseedSpheres_fresh_set [of 2 halfRandom defaultParams kinState]
  by (simp add: halfRandom_def paddedBounds_def defaultParams_def kinState_def initState_def
      upt_0_2)

section \<open>The grid\<close>

lemma vset_fields [simp]:
  "nextFresh (vset r v st) = nextFresh st"
  "cornerValues (vset r v st) = cornerValues st"
  "edgeIntersection (vset r v st) = edgeIntersection st"
  "vertices (vset r v st) = vertices st"
  "normals (vset r v st) = normals st"
  by (simp_all add: vset_def)

lemma less_8_cases:
  "c < 8 \<Longrightarrow> c = 0 \<or> c = 1 \<or> c = 2 \<or> c = 3 \<or> c = 4 \<or> c = 5 \<or> c = 6 \<or> c = (7::nat)"
  by arith

text \<open>
  C3 (as the code has it).  Corner \<open>c\<close> of cell \<open>(i, j, k)\<close> lies at the cell origin plus
  the cell size times an offset whose y component is bit 1 of \<open>c\<close>, whose z component is
  bit 2 of \<open>c\<close>, and whose x component is 1 exactly when bits 0 and 1 of \<open>c\<close> differ: the
  corners run around the bottom face and then around the top face.
\<close>

theorem cellCorners_position:
  assumes "c < 8"
  shows "heap (cellCorners ps i j k st) (Corner c) =
     Vector3 (- volumeRadius ps + real i * cellSizeOf ps
                + cellSizeOf ps * of_bool (bit c 0 \<noteq> bit c 1))
             (- volumeRadius ps + real j * cellSizeOf ps + cellSizeOf ps * of_bool (bit c 1))
             (- volumeRadius ps + real k * cellSizeOf ps + cellSizeOf ps * of_bool (bit c 2))"
  using less_8_cases [OF assms]
  by (elim disjE) (simp_all add: cellCorners_def setCorners_def Let_def bit_numeral_simps bit_0)

theorem cellCorners_position_witness:
  "(2::nat) < 8 \<and> heap (cellCorners defaultParams 0 0 0 initState) (Corner 2) =
     Vector3 (- 0.175 + 0.00875) (- 0.175 + 0.00875) (- 0.175)"
  using cellCorners_position [of 2 defaultParams 0 0 0 initState]
  by (simp add: cellSizeOf_def defaultParams_def bit_0)

text \<open>
  Corner 2 of the first cell is not where the bitwise reading of the specification puts
  it: the code moves it along x as well as along y.
\<close>

theorem corner_two_not_bitwise:
  "heap (cellCorners defaultParams 0 0 0 initState) (Corner 2)
     \<noteq> cornerPosition_spec defaultParams 0 0 0 2"
  by (simp add: cellCorners_def setCorners_def Let_def cornerPosition_spec_def cellSizeOf_def bit_0
      defaultParams_def)

section \<open>The steps of a cell\<close>

lemma heap_cellCorners:
  assumes "c < 8"
  shows "heap (cellCorners ps i j k st) (Corner c) = cornerPoint ps i j k c"
  using less_8_cases [OF assms]
  by (elim disjE)
    (simp_all add: cellCorners_def setCorners_def Let_def cornerPoint_def bit_numeral_simps bit_0)

lemma cellCorners_fields [simp]:
  "nextFresh (cellCorners ps i j k st) = nextFresh st"
  "cornerValues (cellCorners ps i j k st) = cornerValues st"
  "edgeIntersection (cellCorners ps i j k st) = edgeIntersection st"
  "vertices (cellCorners ps i j k st) = vertices st"
  "normals (cellCorners ps i j k st) = normals st"
  "spheres (cellCorners ps i j k st) = spheres st"
  by (simp_all add: cellCorners_def setCorners_def Let_def)

text \<open>The corner loop, run over the first n corners.\<close>

lemma cornerLoop_prefix:
  assumes len: "length (cornerValues st) = 8"
  shows "n \<le> 8 \<Longrightarrow>
    fold (cornerStep ps) [0..<n] (0, st) =
      (fold (\<lambda>c cubeIndex.
               if fieldValue ps (spheres st) (heap st (Corner c)) < isoLevel ps
               then cubeIndex OR push_bit c 1 else cubeIndex) [0..<n] 0,
       st\<lparr>cornerValues :=
            map (\<lambda>c. fieldValue ps (spheres st) (heap st (Corner c))) [0..<n]
            @ drop n (cornerValues st)\<rparr>)"
proof (induction n)
  case 0
  then show ?case by simp
next
  case (Suc n)
  then have n: "n < 8" by simp
  define g where "g = (\<lambda>c. fieldValue ps (spheres st) (heap st (Corner c)))"
  have upd: "(map g [0..<n] @ drop n (cornerValues st))[n := g n]
               = map g [0..<n] @ [g n] @ drop (Suc n) (cornerValues st)"
    using n len by (simp add: list_update_append upd_conv_take_nth_drop)
  have nth: "(map g [0..<n] @ [g n] @ drop (Suc n) (cornerValues st)) ! n = g n"
    by (simp add: nth_append)
  show ?case
    using Suc.IH n upd nth
    by (simp add: cornerStep_def Let_def g_def)
qed

lemma classify_eq:
  assumes "length (cornerValues st) = 8"
  shows "classify ps st =
      (cubeIndexOf (isoLevel ps) (\<lambda>c. fieldValue ps (spheres st) (heap st (Corner c))),
       st\<lparr>cornerValues := map (\<lambda>c. fieldValue ps (spheres st) (heap st (Corner c))) [0..<8]\<rparr>)"
  using cornerLoop_prefix [OF assms, of 8 ps] assms
  by (simp add: classify_def cubeIndexOf_def)

lemma estimateNormal_eq:
  assumes "pos \<noteq> P"
  shows "estimateNormal ps pos st =
    (NormalH,
     st\<lparr>heap := (heap st)
        (P := Vector3 (vx (heap st pos)) (vy (heap st pos)) (vz (heap st pos) - 0.001),
         NormalH := gradientNormal (fieldValue ps (spheres st)) (heap st pos))\<rparr>)"
  using assms
  by (simp add: estimateNormal_def vset_def gradientNormal_def Let_def)


lemma emitTriangle_fields:
  assumes "v1 \<noteq> P" "v2 \<noteq> P" "v3 \<noteq> P" "v2 \<noteq> NormalH" "v3 \<noteq> NormalH"
  shows "vertices (emitTriangle ps v1 v2 v3 st)
           = vertices st @ pushVec (pushVec (pushVec [] (heap st v1)) (heap st v2)) (heap st v3)"
    and "normals (emitTriangle ps v1 v2 v3 st)
           = normals st @ pushVec (pushVec (pushVec []
                 (gradientNormal (fieldValue ps (spheres st)) (heap st v3)))
                 (gradientNormal (fieldValue ps (spheres st)) (heap st v3)))
                 (gradientNormal (fieldValue ps (spheres st)) (heap st v3))"
    and "spheres (emitTriangle ps v1 v2 v3 st) = spheres st"
    and "cornerValues (emitTriangle ps v1 v2 v3 st) = cornerValues st"
    and "edgeIntersection (emitTriangle ps v1 v2 v3 st) = edgeIntersection st"
    and "nextFresh (emitTriangle ps v1 v2 v3 st) = nextFresh st"
    and "r \<noteq> P \<Longrightarrow> r \<noteq> NormalH \<Longrightarrow> heap (emitTriangle ps v1 v2 v3 st) r = heap st r"
  using assms
  by (simp_all add: emitTriangle_def Let_def estimateNormal_eq pushVec_def)

subsection \<open>The triangle loop\<close>

lemma stableRef_simps [simp]:
  "stableRef st (Corner c)"
  "stableRef st (Fresh m) \<longleftrightarrow> m < nextFresh st"
  "\<not> stableRef st P"
  "\<not> stableRef st NormalH"
  "\<not> stableRef st (EdgeSlot e)"
  by (simp_all add: stableRef_def)

lemma stableRef_not_scratch: "stableRef st r \<Longrightarrow> r \<noteq> P \<and> r \<noteq> NormalH"
  by (cases r) simp_all

lemma edgeAt_ready:
  assumes "edgesReady em pts 12 st" and "edgeActive em a"
  shows "\<exists>r. edgeAt a st = Some r \<and> stableRef st r \<and> heap st r = pts (nat a)"
proof -
  from assms(2) have a: "0 \<le> a" "nat a < 12" "em AND 2 ^ nat a \<noteq> 0"
    by (auto simp add: edgeActive_def)
  from assms(1) a have "stableRef st (edgeIntersection st ! nat a)
      \<and> heap st (edgeIntersection st ! nat a) = pts (nat a)"
    and "length (edgeIntersection st) = 12"
    by (simp_all add: edgesReady_def)
  then show ?thesis using a by (simp add: edgeAt_def)
qed

lemma edgesReady_emitTriangle:
  assumes "edgesReady em pts n st" "stableRef st v1" "stableRef st v2" "stableRef st v3"
  shows "edgesReady em pts n (emitTriangle ps v1 v2 v3 st)"
proof -
  note ns = stableRef_not_scratch
  have f: "edgeIntersection (emitTriangle ps v1 v2 v3 st) = edgeIntersection st"
    "nextFresh (emitTriangle ps v1 v2 v3 st) = nextFresh st"
    using assms(2-4) by (simp_all add: emitTriangle_fields ns)
  have s: "\<And>r. stableRef (emitTriangle ps v1 v2 v3 st) r = stableRef st r"
    by (simp add: stableRef_def f split: ref.splits)
  have h: "\<And>r. stableRef st r \<Longrightarrow> heap (emitTriangle ps v1 v2 v3 st) r = heap st r"
    using assms(2-4) by (simp add: emitTriangle_fields ns)
  show ?thesis
    using assms(1) by (simp add: edgesReady_def f s h)
qed

lemma rowVertices_stop [simp]: "rowVertices pts (- 1 # rest) = []"
proof (cases rest)
  case Nil
  then show ?thesis by simp
next
  case (Cons b r)
  then show ?thesis by (cases r) simp_all
qed

lemma rowNormals_stop [simp]: "rowNormals f pts (- 1 # rest) = []"
proof (cases rest)
  case Nil
  then show ?thesis by simp
next
  case (Cons b r)
  then show ?thesis by (cases r) simp_all
qed

lemma triLoop_result:
  "rowOk em row \<Longrightarrow> edgesReady em pts 12 st \<Longrightarrow>
   \<exists>st'. triLoop ps row st = Inr st'
     \<and> vertices st' = vertices st @ rowVertices pts row
     \<and> normals st' = normals st @ rowNormals (fieldValue ps (spheres st)) pts row
     \<and> spheres st' = spheres st
     \<and> cornerValues st' = cornerValues st
     \<and> edgeIntersection st' = edgeIntersection st"
proof (induction ps row st rule: triLoop.induct)
  case (1 ps st)
  then show ?case by simp
next
  case (2 ps a rest st)
  show ?case
  proof (cases "a = - 1")
    case True
    then show ?thesis by simp
  next
    case False
    with "2.prems"(1) obtain b c rest' where rest: "rest = b # c # rest'"
      and act: "edgeActive em a" "edgeActive em b" "edgeActive em c" and ok: "rowOk em rest'"
      by (auto split: list.splits)
    from edgeAt_ready [OF "2.prems"(2) act(3)] obtain v1 where
      v1: "edgeAt c st = Some v1" "stableRef st v1" "heap st v1 = pts (nat c)" by blast
    from edgeAt_ready [OF "2.prems"(2) act(2)] obtain v2 where
      v2: "edgeAt b st = Some v2" "stableRef st v2" "heap st v2 = pts (nat b)" by blast
    from edgeAt_ready [OF "2.prems"(2) act(1)] obtain v3 where
      v3: "edgeAt a st = Some v3" "stableRef st v3" "heap st v3 = pts (nat a)" by blast
    note ns = stableRef_not_scratch
    have rdy: "edgesReady em pts 12 (emitTriangle ps v1 v2 v3 st)"
      using "2.prems"(2) v1(2) v2(2) v3(2) by (rule edgesReady_emitTriangle)
    from "2.IH" [OF False rest refl refl v1(1) refl v2(1) v3(1) ok rdy]
    obtain st' where st': "triLoop ps rest' (emitTriangle ps v1 v2 v3 st) = Inr st'"
      "vertices st' = vertices (emitTriangle ps v1 v2 v3 st) @ rowVertices pts rest'"
      "normals st' = normals (emitTriangle ps v1 v2 v3 st)
         @ rowNormals (fieldValue ps (spheres (emitTriangle ps v1 v2 v3 st))) pts rest'"
      "spheres st' = spheres (emitTriangle ps v1 v2 v3 st)"
      "cornerValues st' = cornerValues (emitTriangle ps v1 v2 v3 st)"
      "edgeIntersection st' = edgeIntersection (emitTriangle ps v1 v2 v3 st)"
      by auto
    have e: "v1 \<noteq> P" "v2 \<noteq> P" "v3 \<noteq> P" "v2 \<noteq> NormalH" "v3 \<noteq> NormalH"
      using ns [OF v1(2)] ns [OF v2(2)] ns [OF v3(2)] by simp_all
    note ef = emitTriangle_fields [OF e]
    have "triLoop ps (a # rest) st = Inr st'"
      using False rest v1(1) v2(1) v3(1) st'(1) by simp
    moreover have "vertices st' = vertices st @ rowVertices pts (a # rest)"
      using False rest st'(2) by (simp add: ef v1 v2 v3)
    moreover have "normals st' = normals st @ rowNormals (fieldValue ps (spheres st)) pts (a # rest)"
      using False rest st'(3) by (simp add: ef v1 v2 v3)
    moreover have "spheres st' = spheres st" "cornerValues st' = cornerValues st"
      "edgeIntersection st' = edgeIntersection st"
      using st'(4-6) by (simp_all add: ef)
    ultimately show ?thesis by blast
  qed
qed

subsection \<open>The edge assignments\<close>

lemma stableRef_cong: "nextFresh st' = nextFresh st \<Longrightarrow> stableRef st' r = stableRef st r"
  by (simp add: stableRef_def split: ref.splits)

lemma interpolateVertex_props:
  assumes "interpolateVertex ps (Corner a) (Corner b) v1 v2 st = (r, st')"
  shows "stableRef st' r"
    and "heap st' r = interpolated (isoLevel ps) (heap st (Corner a)) (heap st (Corner b)) v1 v2"
    and "\<And>q. stableRef st q \<Longrightarrow> stableRef st' q \<and> heap st' q = heap st q"
    and "cornerValues st' = cornerValues st"
    and "edgeIntersection st' = edgeIntersection st"
    and "spheres st' = spheres st"
    and "vertices st' = vertices st"
    and "normals st' = normals st"
proof -
  show "stableRef st' r"
    using assms by (auto simp: interpolateVertex_def newVector3_def Let_def split: if_splits)
  show "heap st' r = interpolated (isoLevel ps) (heap st (Corner a)) (heap st (Corner b)) v1 v2"
    using assms
    by (auto simp: interpolateVertex_def interpolated_def newVector3_def Let_def split: if_splits)
  show "stableRef st' q \<and> heap st' q = heap st q" if "stableRef st q" for q
    using assms that
    by (cases q) (auto simp: interpolateVertex_def newVector3_def Let_def split: if_splits)
  show "cornerValues st' = cornerValues st" "edgeIntersection st' = edgeIntersection st"
    "spheres st' = spheres st" "vertices st' = vertices st" "normals st' = normals st"
    using assms by (auto simp: interpolateVertex_def newVector3_def Let_def split: if_splits)
qed

lemma edgeCorners_range:
  assumes "e < 12"
  shows "fst (edgeCorners ! e) < 8 \<and> snd (edgeCorners ! e) < 8"
proof -
  have "\<forall>p \<in> set edgeCorners. fst p < 8 \<and> snd p < 8"
    by (simp add: edgeCorners_def)
  moreover have "edgeCorners ! e \<in> set edgeCorners"
    using assms by (intro nth_mem) (simp add: edgeCorners_def)
  ultimately show ?thesis by blast
qed

lemma edgeStep_props:
  assumes n: "n < 12"
    and rdy: "edgesReady em pts n st"
    and cv: "cornerValues st ! fst (edgeCorners ! n) = v1" "cornerValues st ! snd (edgeCorners ! n) = v2"
    and pn: "pts n = interpolated (isoLevel ps) (heap st (Corner (fst (edgeCorners ! n))))
                (heap st (Corner (snd (edgeCorners ! n)))) v1 v2"
  shows "edgesReady em pts (Suc n) (edgeStep ps em n st)"
    and "\<And>q. stableRef st q \<Longrightarrow>
           stableRef (edgeStep ps em n st) q \<and> heap (edgeStep ps em n st) q = heap st q"
    and "cornerValues (edgeStep ps em n st) = cornerValues st"
    and "spheres (edgeStep ps em n st) = spheres st"
    and "vertices (edgeStep ps em n st) = vertices st"
    and "normals (edgeStep ps em n st) = normals st"
proof -
  define a where "a = fst (edgeCorners ! n)"
  define b where "b = snd (edgeCorners ! n)"
  obtain r st' where res: "interpolateVertex ps (Corner a) (Corner b) v1 v2 st = (r, st')"
    by (cases "interpolateVertex ps (Corner a) (Corner b) v1 v2 st") blast
  note ip = interpolateVertex_props [OF res]
  have len: "length (edgeIntersection st) = 12"
    using rdy by (simp add: edgesReady_def)
  show frame: "stableRef (edgeStep ps em n st) q \<and> heap (edgeStep ps em n st) q = heap st q"
    if "stableRef st q" for q
  proof (cases "em AND 2 ^ n \<noteq> 0")
    case True
    have "stableRef (st'\<lparr>edgeIntersection := (edgeIntersection st')[n := r]\<rparr>) q = stableRef st' q"
      by (rule stableRef_cong) simp
    then show ?thesis
      using True ip(3) [OF that] res cv
      by (simp add: edgeStep_def Let_def a_def b_def)
  next
    case False
    then show ?thesis using that by (simp add: edgeStep_def)
  qed
  show "cornerValues (edgeStep ps em n st) = cornerValues st"
    "spheres (edgeStep ps em n st) = spheres st"
    "vertices (edgeStep ps em n st) = vertices st"
    "normals (edgeStep ps em n st) = normals st"
    using res cv ip(4-8) by (simp_all add: edgeStep_def Let_def a_def b_def)
  show "edgesReady em pts (Suc n) (edgeStep ps em n st)"
  proof (cases "em AND 2 ^ n \<noteq> 0")
    case False
    then have "edgeStep ps em n st = st" by (simp add: edgeStep_def)
    then show ?thesis
      using rdy False by (auto simp: edgesReady_def less_Suc_eq)
  next
    case True
    define st2 where "st2 = st'\<lparr>edgeIntersection := (edgeIntersection st')[n := r]\<rparr>"
    have st2: "edgeStep ps em n st = st2"
      using True res cv by (simp add: edgeStep_def Let_def a_def b_def st2_def)
    have sr: "\<And>q. stableRef st2 q = stableRef st' q"
      by (rule stableRef_cong) (simp add: st2_def)
    have ei: "edgeIntersection st2 = (edgeIntersection st)[n := r]" and hp: "heap st2 = heap st'"
      by (simp_all add: st2_def ip(5))
    have "stableRef st2 (edgeIntersection st2 ! e) \<and> heap st2 (edgeIntersection st2 ! e) = pts e"
      if e: "e < Suc n" "em AND 2 ^ e \<noteq> 0" for e
    proof (cases "e = n")
      case True
      then have "edgeIntersection st2 ! e = r" using n len by (simp add: ei)
      then show ?thesis
        using ip(1) ip(2) pn True by (simp add: sr hp a_def b_def)
    next
      case False
      then have "e < n" using e(1) by simp
      then have old: "stableRef st (edgeIntersection st ! e)" "heap st (edgeIntersection st ! e) = pts e"
        using rdy e(2) by (simp_all add: edgesReady_def)
      have "edgeIntersection st2 ! e = edgeIntersection st ! e"
        using False by (simp add: ei)
      then show ?thesis
        using ip(3) [OF old(1)] old(2) by (simp add: sr hp)
    qed
    then show ?thesis
      unfolding st2 edgesReady_def using len by (simp add: ei)
  qed
qed

lemma interpolateEdges_prefix:
  assumes len: "length (edgeIntersection st) = 12"
    and cv: "\<forall>c<8. cornerValues st ! c = f (heap st (Corner c))"
  shows "n \<le> 12 \<Longrightarrow>
     edgesReady em (edgeValue ps f st) n (fold (edgeStep ps em) [0..<n] st)
     \<and> (\<forall>q. stableRef st q \<longrightarrow>
           stableRef (fold (edgeStep ps em) [0..<n] st) q
           \<and> heap (fold (edgeStep ps em) [0..<n] st) q = heap st q)
     \<and> cornerValues (fold (edgeStep ps em) [0..<n] st) = cornerValues st
     \<and> spheres (fold (edgeStep ps em) [0..<n] st) = spheres st
     \<and> vertices (fold (edgeStep ps em) [0..<n] st) = vertices st
     \<and> normals (fold (edgeStep ps em) [0..<n] st) = normals st"
proof (induction n)
  case 0
  then show ?case using len by (simp add: edgesReady_def)
next
  case (Suc n)
  define st1 where "st1 = fold (edgeStep ps em) [0..<n] st"
  from Suc have n: "n < 12" and IH: "edgesReady em (edgeValue ps f st) n st1"
    "\<And>q. stableRef st q \<Longrightarrow> stableRef st1 q \<and> heap st1 q = heap st q"
    "cornerValues st1 = cornerValues st" "spheres st1 = spheres st"
    "vertices st1 = vertices st" "normals st1 = normals st"
    by (simp_all add: st1_def)
  from edgeCorners_range [OF n] have ab: "fst (edgeCorners ! n) < 8" "snd (edgeCorners ! n) < 8"
    by simp_all
  have ha: "\<And>c. heap st1 (Corner c) = heap st (Corner c)"
    using IH(2) by simp
  have pn: "edgeValue ps f st n = interpolated (isoLevel ps)
      (heap st1 (Corner (fst (edgeCorners ! n)))) (heap st1 (Corner (snd (edgeCorners ! n))))
      (f (heap st (Corner (fst (edgeCorners ! n))))) (f (heap st (Corner (snd (edgeCorners ! n)))))"
    by (simp add: edgeValue_def ha)
  have c1: "cornerValues st1 ! fst (edgeCorners ! n) = f (heap st (Corner (fst (edgeCorners ! n))))"
    and c2: "cornerValues st1 ! snd (edgeCorners ! n) = f (heap st (Corner (snd (edgeCorners ! n))))"
    using cv ab by (simp_all add: IH(3))
  note es = edgeStep_props [OF n IH(1) c1 c2 pn]
  have f: "fold (edgeStep ps em) [0..<Suc n] st = edgeStep ps em n st1"
    by (simp add: st1_def)
  show ?case
    unfolding f using es IH by auto
qed

subsection \<open>One cell\<close>

lemma or_nat_bound:
  fixes x y :: nat
  assumes "x < 2 ^ n" "y < 2 ^ n"
  shows "x OR y < 2 ^ n"
proof -
  have "take_bit n (x OR y) = x OR y"
    using assms by (simp add: take_bit_or take_bit_nat_eq_self)
  then show ?thesis by (simp only: take_bit_nat_eq_self_iff)
qed

lemma cubeIndex_fold_bound:
  "\<forall>c \<in> set cs. c < 8 \<Longrightarrow> ci < 256 \<Longrightarrow>
   fold (\<lambda>c cubeIndex. if vals c < isoL then cubeIndex OR push_bit c 1 else cubeIndex) cs ci
     < (256::nat)"
proof (induction cs arbitrary: ci)
  case Nil
  then show ?case by simp
next
  case (Cons c cs)
  have c: "c < 8" using Cons.prems(1) by simp
  have "(2::nat) ^ c < 2 ^ 8" using c by (simp only: power_strict_increasing_iff) 
  then have "ci OR push_bit c 1 < 2 ^ 8"
    using or_nat_bound [of ci 8 "push_bit c 1"] Cons.prems(2) by (simp add: push_bit_eq_mult)
  then have "(if vals c < isoL then ci OR push_bit c 1 else ci) < 256"
    using Cons.prems(2) by simp
  then show ?case using Cons by simp
qed

lemma cubeIndexOf_bound: "cubeIndexOf isoL vals < 256"
  unfolding cubeIndexOf_def by (rule cubeIndex_fold_bound) simp_all

lemma cubeIndexOf_cong:
  assumes "\<And>c. c < 8 \<Longrightarrow> vals c = vals' c"
  shows "cubeIndexOf isoL vals = cubeIndexOf isoL vals'"
  unfolding cubeIndexOf_def
  by (rule fold_cong) (simp_all add: assms)

lemma edgesReady_cong:
  assumes "edgesReady em pts n st" and "\<And>e. e < n \<Longrightarrow> pts e = pts' e"
  shows "edgesReady em pts' n st"
  using assms by (simp add: edgesReady_def)

lemma tablesConsistent_row:
  assumes "tablesConsistent tabs" "c < 256" "edgeTable tabs c \<noteq> 0"
  shows "rowOk (edgeTable tabs c) (triTable tabs c)"
proof -
  have "c \<in> set [0..<256]" using assms(2) by simp
  with assms(1) have "edgeTable tabs c = 0 \<or> rowOk (edgeTable tabs c) (triTable tabs c)"
    unfolding tablesConsistent_def list_all_iff by (rule bspec)
  with assms(3) show ?thesis by simp
qed

lemma marchCell_result:
  assumes wf: "wellFormed st" and tc: "tablesConsistent tabs"
  shows "\<exists>st'. marchCell ps tabs i j k st = Inr st'
     \<and> wellFormed st' \<and> spheres st' = spheres st
     \<and> vertices st' = vertices st @ cellVertices ps tabs (fieldValue ps (spheres st)) i j k
     \<and> normals st' = normals st @ cellNormals ps tabs (fieldValue ps (spheres st)) i j k"
proof -
  define f where "f = fieldValue ps (spheres st)"
  define st1 where "st1 = cellCorners ps i j k st"
  define st2 where "st2 = st1\<lparr>cornerValues := map (\<lambda>c. f (heap st1 (Corner c))) [0..<8]\<rparr>"
  define ci where "ci = cellIndex ps f i j k"
  have len1: "length (cornerValues st1) = 8"
    using wf by (simp add: st1_def wellFormed_def)
  have hc: "\<And>c. c < 8 \<Longrightarrow> heap st1 (Corner c) = cornerPoint ps i j k c"
    by (simp add: st1_def heap_cellCorners)
  have "cubeIndexOf (isoLevel ps) (\<lambda>c. f (heap st1 (Corner c))) = ci"
    unfolding ci_def cellIndex_def by (rule cubeIndexOf_cong) (simp add: hc)
  then have cl: "classify ps st1 = (ci, st2)"
    using classify_eq [OF len1, of ps] by (simp add: st2_def f_def st1_def)
  have wf2: "wellFormed st2" "spheres st2 = spheres st" "vertices st2 = vertices st"
    "normals st2 = normals st"
    using wf by (simp_all add: st2_def st1_def wellFormed_def)
  show ?thesis
  proof (cases "edgeTable tabs ci = 0")
    case True
    then have "marchCell ps tabs i j k st = Inr st2"
      using cl by (simp add: marchCell_def Let_def st1_def)
    then show ?thesis
      using True wf2 by (simp add: cellVertices_def cellNormals_def f_def ci_def)
  next
    case False
    define em where "em = edgeTable tabs ci"
    define st3 where "st3 = interpolateEdges ps em st2"
    have "ci < 256" unfolding ci_def cellIndex_def by (rule cubeIndexOf_bound)
    then have ok: "rowOk em (triTable tabs ci)"
      using tc False unfolding em_def by (intro tablesConsistent_row)
    have len2: "length (edgeIntersection st2) = 12"
      using wf2(1) by (simp add: wellFormed_def)
    have cv2: "\<forall>c<8. cornerValues st2 ! c = f (heap st2 (Corner c))"
      by (simp add: st2_def)
    from interpolateEdges_prefix [OF len2 cv2, of 12 em ps]
    have ie: "edgesReady em (edgeValue ps f st2) 12 st3"
      "cornerValues st3 = cornerValues st2" "spheres st3 = spheres st2"
      "vertices st3 = vertices st2" "normals st3 = normals st2"
      by (simp_all add: st3_def interpolateEdges_def)
    have "edgeValue ps f st2 e = edgePoint ps f i j k e" if "e < 12" for e
      using edgeCorners_range [OF that] hc
      by (simp add: edgeValue_def edgePoint_def Let_def st2_def)
    with ie(1) have rdy: "edgesReady em (edgePoint ps f i j k) 12 st3"
      by (rule edgesReady_cong)
    from triLoop_result [OF ok rdy, of ps] obtain st' where st':
      "triLoop ps (triTable tabs ci) st3 = Inr st'"
      "vertices st' = vertices st3 @ rowVertices (edgePoint ps f i j k) (triTable tabs ci)"
      "normals st' = normals st3
         @ rowNormals (fieldValue ps (spheres st3)) (edgePoint ps f i j k) (triTable tabs ci)"
      "spheres st' = spheres st3" "cornerValues st' = cornerValues st3"
      "edgeIntersection st' = edgeIntersection st3"
      by blast
    have "marchCell ps tabs i j k st = Inr st'"
      using cl False st'(1) by (simp add: marchCell_def Let_def st1_def st3_def em_def)
    moreover have "wellFormed st'"
      using st'(5,6) ie(1,2) wf2(1) by (simp add: wellFormed_def edgesReady_def)
    moreover have "spheres st' = spheres st"
      using st'(4) ie(3) wf2(2) by simp
    moreover have "vertices st' = vertices st @ cellVertices ps tabs f i j k"
      using st'(2) ie(4) wf2(3) False by (simp add: cellVertices_def Let_def ci_def)
    moreover have "normals st' = normals st @ cellNormals ps tabs f i j k"
      using st'(3) ie(3,5) wf2(2,4) False by (simp add: cellNormals_def Let_def ci_def f_def)
    ultimately show ?thesis unfolding f_def by blast
  qed
qed

section \<open>The whole pass\<close>

lemma forEach_collect:
  assumes step: "\<And>x st. x \<in> set xs \<Longrightarrow> I st \<Longrightarrow>
      \<exists>st'. body x st = Inr st' \<and> I st'
        \<and> vertices st' = vertices st @ gv x \<and> normals st' = normals st @ gn x"
  shows "I st \<Longrightarrow>
      \<exists>st'. forEach xs body st = Inr st' \<and> I st'
        \<and> vertices st' = vertices st @ concat (map gv xs)
        \<and> normals st' = normals st @ concat (map gn xs)"
  using step
proof (induction xs arbitrary: st)
  case Nil
  then show ?case by simp
next
  case (Cons x xs)
  from Cons.prems(2) [of x st] Cons.prems(1) obtain st1 where st1:
    "body x st = Inr st1" "I st1" "vertices st1 = vertices st @ gv x"
    "normals st1 = normals st @ gn x"
    by auto
  have "\<exists>st'. forEach xs body st1 = Inr st' \<and> I st'
        \<and> vertices st' = vertices st1 @ concat (map gv xs)
        \<and> normals st' = normals st1 @ concat (map gn xs)"
    using st1(2) Cons.prems(2) by (intro Cons.IH) simp_all
  then show ?case using st1 by auto
qed

lemma updateMesh_result:
  assumes wf: "wellFormed st" and tc: "tablesConsistent tabs"
  shows "\<exists>st'. updateMesh ps tabs st = Inr st'
     \<and> wellFormed st' \<and> spheres st' = spheres st
     \<and> vertices st' = meshVertices ps tabs (fieldValue ps (spheres st))
     \<and> normals st' = meshNormals ps tabs (fieldValue ps (spheres st))"
proof -
  define f where "f = fieldValue ps (spheres st)"
  define I where "I = (\<lambda>s. wellFormed s \<and> spheres s = spheres st)"
  define n where "n = nat (cellsPerAxis ps)"
  define st0 where "st0 = st\<lparr>vertices := [], normals := []\<rparr>"
  have cell: "\<exists>s'. marchCell ps tabs i j k s = Inr s' \<and> I s'
        \<and> vertices s' = vertices s @ cellVertices ps tabs f i j k
        \<and> normals s' = normals s @ cellNormals ps tabs f i j k" if "I s" for i j k s
    using marchCell_result [OF _ tc, of s ps i j k] that by (auto simp: I_def f_def)
  have inner: "\<exists>s'. forEach [0..<n] (\<lambda>k. marchCell ps tabs i j k) s = Inr s' \<and> I s'
        \<and> vertices s' = vertices s @ concat (map (\<lambda>k. cellVertices ps tabs f i j k) [0..<n])
        \<and> normals s' = normals s @ concat (map (\<lambda>k. cellNormals ps tabs f i j k) [0..<n])"
    if "I s" for i j s
    by (rule forEach_collect [where I = I, OF _ that]) (simp add: cell)
  have middle: "\<exists>s'. forEach [0..<n] (\<lambda>j. forEach [0..<n] (\<lambda>k. marchCell ps tabs i j k)) s = Inr s'
        \<and> I s'
        \<and> vertices s' = vertices s @ concat (map (\<lambda>j. concat (map (\<lambda>k. cellVertices ps tabs f i j k)
             [0..<n])) [0..<n])
        \<and> normals s' = normals s @ concat (map (\<lambda>j. concat (map (\<lambda>k. cellNormals ps tabs f i j k)
             [0..<n])) [0..<n])"
    if "I s" for i s
    by (rule forEach_collect [where I = I, OF _ that]) (simp add: inner)
  have "I st0" using wf by (simp add: I_def st0_def wellFormed_def)
  have "\<exists>s'. forEach [0..<n] (\<lambda>i. forEach [0..<n] (\<lambda>j.
             forEach [0..<n] (\<lambda>k. marchCell ps tabs i j k))) st0 = Inr s'
        \<and> I s'
        \<and> vertices s' = vertices st0 @ concat (map (\<lambda>i. concat (map (\<lambda>j. concat (map
             (\<lambda>k. cellVertices ps tabs f i j k) [0..<n])) [0..<n])) [0..<n])
        \<and> normals s' = normals st0 @ concat (map (\<lambda>i. concat (map (\<lambda>j. concat (map
             (\<lambda>k. cellNormals ps tabs f i j k) [0..<n])) [0..<n])) [0..<n])"
    by (rule forEach_collect [where I = I, OF _ \<open>I st0\<close>]) (simp add: middle)
  then show ?thesis
    by (simp add: updateMesh_def Let_def n_def st0_def I_def meshVertices_def meshNormals_def
        overGrid_def f_def)
qed

lemma fieldValue_cong:
  assumes "map position ss = map position ss'" "map radius ss = map radius ss'"
  shows "fieldValue ps ss w = fieldValue ps ss' w"
proof -
  have "fold (fieldStep ps w) ss d = fold (fieldStep ps w) ss' d" for d
    using assms
  proof (induction ss arbitrary: ss' d)
    case Nil
    then show ?case by simp
  next
    case (Cons s ss)
    then obtain s' rest where ss': "ss' = s' # rest" by (cases ss') auto
    with Cons.prems have "position s = position s'" "radius s = radius s'"
      "map position ss = map position rest" "map radius ss = map radius rest"
      by simp_all
    then show ?case
      using Cons.IH [of rest] by (simp add: ss' fieldStep_def)
  qed
  then show ?thesis by (simp add: fieldValue_def)
qed

lemma map_update_same:
  assumes "f s' = f (xs ! i)"
  shows "map f (xs[i := s']) = map f xs"
proof (cases "i < length xs")
  case True
  then have "(map f xs)[i := f (xs ! i)] = map f xs"
    by (metis list_update_id map_update)
  then show ?thesis using assms by (simp add: map_update)
next
  case False
  then show ?thesis by (simp add: list_update_beyond)
qed

lemma updateSphere_frame:
  "cornerValues (updateSphere ps rnd dt i st) = cornerValues st"
  "edgeIntersection (updateSphere ps rnd dt i st) = edgeIntersection st"
  "length (spheres (updateSphere ps rnd dt i st)) = length (spheres st)"
  "map radius (spheres (updateSphere ps rnd dt i st)) = map radius (spheres st)"
  by (simp_all add: updateSphere_def Let_def map_update_same)

lemma updateSphere_zero_position:
  "map position (spheres (updateSphere ps rnd 0 i st)) = map position (spheres st)"
proof -
  have z: "vadd v (multiplyScalar u 0) = v" for v u
    by (cases v) (simp add: vadd_def multiplyScalar_def)
  show ?thesis
    by (simp add: updateSphere_def Let_def map_update_same z)
qed

section \<open>Frames\<close>

lemma updateSpheres_fold_frame:
  "cornerValues (fold (updateSphere ps rnd dt) ixs st) = cornerValues st
   \<and> edgeIntersection (fold (updateSphere ps rnd dt) ixs st) = edgeIntersection st
   \<and> map radius (spheres (fold (updateSphere ps rnd dt) ixs st)) = map radius (spheres st)"
  by (induction ixs arbitrary: st) (simp_all add: updateSphere_frame)

lemma updateSpheres_fold_zero:
  "map position (spheres (fold (updateSphere ps rnd 0) ixs st)) = map position (spheres st)"
  by (induction ixs arbitrary: st) (simp_all add: updateSphere_zero_position)

lemma wellFormed_updateSpheres:
  "wellFormed (updateSpheres ps rnd dt st) = wellFormed st"
  by (simp add: wellFormed_def updateSpheres_def updateSpheres_fold_frame)

lemma wellFormed_initState: "wellFormed initState"
  by (simp add: wellFormed_def initState_def)

lemma wellFormed_cornerSphereState: "wellFormed cornerSphereState"
  by (simp add: wellFormed_def cornerSphereState_def initState_def)

lemma tablesConsistent_caseOneTables: "tablesConsistent caseOneTables"
  by (simp add: tablesConsistent_def caseOneTables_def list_all_iff edgeActive_def)

subsection \<open>No emitters, no cells\<close>

lemma fieldValue_no_emitters: "fieldValue ps [] w = 1000000000"
  by (simp add: fieldValue_def)

lemma cubeIndexOf_none:
  assumes "\<And>c. c < 8 \<Longrightarrow> \<not> vals c < isoL"
  shows "cubeIndexOf isoL vals = 0"
proof -
  have "fold (\<lambda>c cubeIndex. if vals c < isoL then cubeIndex OR push_bit c 1 else cubeIndex) cs a = a"
    if "\<forall>c \<in> set cs. c < 8" for cs and a :: nat
    using that assms by (induction cs arbitrary: a) simp_all
  then show ?thesis by (simp add: cubeIndexOf_def)
qed

lemma marchCell_no_emitters:
  assumes wf: "wellFormed st" and e: "spheres st = []"
    and iso: "isoLevel ps \<le> 1000000000" and t0: "edgeTable tabs 0 = 0"
  shows "fst (classify ps (cellCorners ps i j k st)) = 0"
    and "\<exists>st'. marchCell ps tabs i j k st = Inr st' \<and> (wellFormed st' \<and> spheres st' = [])
           \<and> vertices st' = vertices st @ [] \<and> normals st' = normals st @ []"
proof -
  have len1: "length (cornerValues (cellCorners ps i j k st)) = 8"
    using wf by (simp add: wellFormed_def)
  have ci: "cubeIndexOf (isoLevel ps)
      (\<lambda>c. fieldValue ps (spheres (cellCorners ps i j k st)) (heap (cellCorners ps i j k st) (Corner c))) = 0"
    using iso by (intro cubeIndexOf_none) (simp add: e fieldValue_no_emitters)
  show c0: "fst (classify ps (cellCorners ps i j k st)) = 0"
    using ci by (simp add: classify_eq [OF len1])
  have "marchCell ps tabs i j k st = Inr (snd (classify ps (cellCorners ps i j k st)))"
    using c0 t0 by (simp add: marchCell_def Let_def)
  moreover have "wellFormed (snd (classify ps (cellCorners ps i j k st)))"
    "spheres (snd (classify ps (cellCorners ps i j k st))) = []"
    "vertices (snd (classify ps (cellCorners ps i j k st))) = vertices st"
    "normals (snd (classify ps (cellCorners ps i j k st))) = normals st"
    using wf e by (simp_all add: classify_eq [OF len1] wellFormed_def)
  ultimately show "\<exists>st'. marchCell ps tabs i j k st = Inr st' \<and> (wellFormed st' \<and> spheres st' = [])
           \<and> vertices st' = vertices st @ [] \<and> normals st' = normals st @ []"
    by simp
qed

lemma concat_map_nil: "concat (map (\<lambda>x. []) xs) = []"
  by (induction xs) simp_all

lemma updateMesh_no_emitters:
  assumes wf: "wellFormed st" and e: "spheres st = []"
    and iso: "isoLevel ps \<le> 1000000000" and t0: "edgeTable tabs 0 = 0"
  shows "\<exists>st'. updateMesh ps tabs st = Inr st' \<and> vertices st' = [] \<and> normals st' = []"
proof -
  define I where "I = (\<lambda>s. wellFormed s \<and> spheres s = [])"
  define n where "n = nat (cellsPerAxis ps)"
  define st0 where "st0 = st\<lparr>vertices := [], normals := []\<rparr>"
  define nil where "nil = (\<lambda>x::nat. [] :: real list)"
  have cell: "\<exists>s'. marchCell ps tabs i j k s = Inr s' \<and> I s'
        \<and> vertices s' = vertices s @ nil k \<and> normals s' = normals s @ nil k" if "I s" for i j k s
    using marchCell_no_emitters(2) [OF _ _ iso t0, of s i j k] that by (simp add: I_def nil_def)
  have inner: "\<exists>s'. forEach [0..<n] (\<lambda>k. marchCell ps tabs i j k) s = Inr s' \<and> I s'
        \<and> vertices s' = vertices s @ nil j \<and> normals s' = normals s @ nil j"
    if "I s" for i j s
    using forEach_collect [where I = I and gv = nil and gn = nil, OF _ that, of "[0..<n]"
        "\<lambda>k. marchCell ps tabs i j k"] cell
    by (simp add: nil_def concat_map_nil)
  have middle: "\<exists>s'. forEach [0..<n] (\<lambda>j. forEach [0..<n] (\<lambda>k. marchCell ps tabs i j k)) s = Inr s'
        \<and> I s' \<and> vertices s' = vertices s @ nil i \<and> normals s' = normals s @ nil i"
    if "I s" for i s
    using forEach_collect [where I = I and gv = nil and gn = nil, OF _ that, of "[0..<n]"
        "\<lambda>j. forEach [0..<n] (\<lambda>k. marchCell ps tabs i j k)"] inner
    by (simp add: nil_def concat_map_nil)
  have "I st0" using wf e by (simp add: I_def st0_def wellFormed_def)
  from forEach_collect [where I = I and gv = nil and gn = nil, OF _ this, of "[0..<n]"
        "\<lambda>i. forEach [0..<n] (\<lambda>j. forEach [0..<n] (\<lambda>k. marchCell ps tabs i j k))"] middle
  have "\<exists>s'. forEach [0..<n] (\<lambda>i. forEach [0..<n] (\<lambda>j. forEach [0..<n]
        (\<lambda>k. marchCell ps tabs i j k))) st0 = Inr s' \<and> vertices s' = [] \<and> normals s' = []"
    by (auto simp add: st0_def nil_def concat_map_nil)
  then show ?thesis
    by (simp add: updateMesh_def Let_def n_def st0_def)
qed

lemma updateMesh_no_cells:
  assumes "cellsPerAxis ps \<le> 0"
  shows "updateMesh ps tabs st = Inr (st\<lparr>vertices := [], normals := []\<rparr>)"
  using assms by (simp add: updateMesh_def)

section \<open>Claims about the triangulation pass\<close>

text \<open>
  C9.  With tables that are consistent and scratch arrays of the lengths the module
  creates, a frame with any elapsed time followed by a frame with elapsed time zero both
  complete; the second leaves every emitter position as the first left it and produces the
  same position buffer (hence the same vertex count) and the same normal buffer, whatever
  targets the second frame redraws.
\<close>

theorem tick_zero_idempotent:
  assumes wf: "wellFormed st" and tc: "tablesConsistent tabs"
  shows "\<exists>st1 st2. tick ps tabs rnd dt st = Inr st1 \<and> tick ps tabs rnd 0 st1 = Inr st2
      \<and> map position (spheres st2) = map position (spheres st1)
      \<and> vertices st2 = vertices st1 \<and> normals st2 = normals st1"
proof -
  have wf0: "wellFormed (updateSpheres ps rnd dt st)"
    using wf by (simp add: wellFormed_updateSpheres)
  from updateMesh_result [OF wf0 tc, of ps] obtain st1 where st1:
    "updateMesh ps tabs (updateSpheres ps rnd dt st) = Inr st1" "wellFormed st1"
    "spheres st1 = spheres (updateSpheres ps rnd dt st)"
    "vertices st1 = meshVertices ps tabs (fieldValue ps (spheres st1))"
    "normals st1 = meshNormals ps tabs (fieldValue ps (spheres st1))"
    by auto
  define st1' where "st1' = updateSpheres ps rnd 0 st1"
  have wf1: "wellFormed st1'"
    using st1(2) by (simp add: st1'_def wellFormed_updateSpheres)
  have pos: "map position (spheres st1') = map position (spheres st1)"
    and rad: "map radius (spheres st1') = map radius (spheres st1)"
    by (simp_all add: st1'_def updateSpheres_def updateSpheres_fold_zero updateSpheres_fold_frame)
  have f: "fieldValue ps (spheres st1') = fieldValue ps (spheres st1)"
    using fieldValue_cong [OF pos rad] by (intro ext)
  from updateMesh_result [OF wf1 tc, of ps] obtain st2 where st2:
    "updateMesh ps tabs st1' = Inr st2" "spheres st2 = spheres st1'"
    "vertices st2 = meshVertices ps tabs (fieldValue ps (spheres st1'))"
    "normals st2 = meshNormals ps tabs (fieldValue ps (spheres st1'))"
    by auto
  have "tick ps tabs rnd dt st = Inr st1" using st1(1) by (simp add: tick_def)
  moreover have "tick ps tabs rnd 0 st1 = Inr st2" using st2(1) by (simp add: tick_def st1'_def)
  moreover have "map position (spheres st2) = map position (spheres st1)"
    using st2(2) pos by simp
  moreover have "vertices st2 = vertices st1" "normals st2 = normals st1"
    using st1(4,5) st2(3,4) f by simp_all
  ultimately show ?thesis by blast
qed

theorem tick_zero_idempotent_witness:
  "wellFormed cornerSphereState \<and> tablesConsistent caseOneTables
   \<and> (\<exists>st1 st2. tick oneCellParams caseOneTables halfRandom 1 cornerSphereState = Inr st1
         \<and> tick oneCellParams caseOneTables halfRandom 0 st1 = Inr st2
         \<and> map position (spheres st2) = map position (spheres st1)
         \<and> vertices st2 = vertices st1 \<and> normals st2 = normals st1)"
  using tick_zero_idempotent [of cornerSphereState caseOneTables oneCellParams halfRandom 1]
  by (simp add: wellFormed_def cornerSphereState_def initState_def
      tablesConsistent_def caseOneTables_def list_all_iff edgeActive_def)

text \<open>
  C10.  With an empty emitter list the field is the constant \<open>1e9\<close>; for an iso level
  below \<open>1e9\<close> every cell is classified as case 0, and with a zero edge mask for case 0
  \<open>updateMesh\<close> completes without an exception and leaves both buffers empty.
\<close>

theorem no_emitters_empty_mesh:
  assumes "spheres st = []" and "isoLevel ps < 1000000000"
    and "wellFormed st" and "edgeTable tabs 0 = 0"
  shows "fieldValue ps (spheres st) w = 1000000000
    \<and> fst (classify ps (cellCorners ps i j k st)) = 0
    \<and> (\<exists>st'. updateMesh ps tabs st = Inr st' \<and> vertices st' = [] \<and> normals st' = [])"
proof -
  have iso: "isoLevel ps \<le> 1000000000" using assms(2) by simp
  have "fieldValue ps (spheres st) w = 1000000000"
    using assms(1) by (simp add: fieldValue_no_emitters)
  moreover have "fst (classify ps (cellCorners ps i j k st)) = 0"
    using assms(3) assms(1) iso assms(4) by (rule marchCell_no_emitters(1))
  moreover have "\<exists>st'. updateMesh ps tabs st = Inr st' \<and> vertices st' = [] \<and> normals st' = []"
    using assms(3) assms(1) iso assms(4) by (rule updateMesh_no_emitters)
  ultimately show ?thesis by blast
qed

theorem no_emitters_empty_mesh_witness:
  "spheres initState = [] \<and> isoLevel defaultParams < 1000000000
   \<and> wellFormed initState \<and> edgeTable caseOneTables 0 = 0
   \<and> fieldValue defaultParams (spheres initState) (Vector3 0 0 0) = 1000000000
   \<and> fst (classify defaultParams (cellCorners defaultParams 0 0 0 initState)) = 0
   \<and> (\<exists>st'. updateMesh defaultParams caseOneTables initState = Inr st'
         \<and> vertices st' = [] \<and> normals st' = [])"
  using no_emitters_empty_mesh [of initState defaultParams caseOneTables "Vector3 0 0 0" 0 0 0]
  by (simp add: wellFormed_def initState_def defaultParams_def caseOneTables_def)

text \<open>
  C2 (as the code has it).  \<open>updateMesh\<close> checks nothing before it starts: called with a
  cell count that is not positive, or with no emitters (iso level at most \<open>1e9\<close>, zero
  edge mask for case 0), it completes without an exception and leaves both buffers empty.
\<close>

theorem updateMesh_no_precondition_check:
  assumes "cellsPerAxis ps \<le> 0
     \<or> (spheres st = [] \<and> wellFormed st \<and> isoLevel ps \<le> 1000000000 \<and> edgeTable tabs 0 = 0)"
  shows "\<exists>st'. updateMesh ps tabs st = Inr st' \<and> vertices st' = [] \<and> normals st' = []"
  using assms
proof
  assume "cellsPerAxis ps \<le> 0"
  then show ?thesis by (simp add: updateMesh_no_cells)
next
  assume "spheres st = [] \<and> wellFormed st \<and> isoLevel ps \<le> 1000000000 \<and> edgeTable tabs 0 = 0"
  then show ?thesis by (intro updateMesh_no_emitters) simp_all
qed

theorem updateMesh_no_precondition_check_witness:
  "cellsPerAxis (defaultParams\<lparr>cellsPerAxis := - 1\<rparr>) \<le> 0
   \<and> (\<exists>st'. updateMesh (defaultParams\<lparr>cellsPerAxis := - 1\<rparr>) caseOneTables cornerSphereState = Inr st'
         \<and> vertices st' = [] \<and> normals st' = [])
   \<and> spheres initState = [] \<and> wellFormed initState \<and> isoLevel defaultParams \<le> 1000000000
   \<and> edgeTable caseOneTables 0 = 0
   \<and> (\<exists>st'. updateMesh defaultParams caseOneTables initState = Inr st'
         \<and> vertices st' = [] \<and> normals st' = [])"
  using updateMesh_no_precondition_check
      [of "defaultParams\<lparr>cellsPerAxis := - 1\<rparr>" cornerSphereState caseOneTables]
    updateMesh_no_precondition_check [of defaultParams initState caseOneTables]
  by (simp add: wellFormed_def initState_def defaultParams_def caseOneTables_def)

text \<open>
  With a cell count of zero and no emitters the call returns normally, both buffers
  empty: nothing is rejected.
\<close>

theorem updateMesh_zero_cells_returns:
  "updateMesh (defaultParams\<lparr>cellsPerAxis := 0\<rparr>) caseOneTables initState = Inr initState"
  by (simp add: updateMesh_def initState_def)

section \<open>The one-cell example, evaluated\<close>

lemma upt_0_8: "[0..<8] = [0, 1, 2, 3, 4, 5, 6, 7::nat]"
  by code_simp

lemma distanceTo_bound:
  assumes "\<bar>vx a - vx b\<bar> \<le> 3" "\<bar>vy a - vy b\<bar> \<le> 3" "\<bar>vz a - vz b\<bar> \<le> 3"
  shows "distanceTo a b \<le> 6"
proof -
  have sq: "x * x \<le> 9" if "\<bar>x\<bar> \<le> 3" for x :: real
  proof -
    have "\<bar>x\<bar> * \<bar>x\<bar> \<le> 3 * 3" using that by (intro mult_mono) simp_all
    then show ?thesis by (simp add: abs_mult_self_eq)
  qed
  have "(vx a - vx b) * (vx a - vx b) + (vy a - vy b) * (vy a - vy b)
          + (vz a - vz b) * (vz a - vz b) \<le> 6\<^sup>2"
    using sq [OF assms(1)] sq [OF assms(2)] sq [OF assms(3)] by simp
  then show ?thesis
    unfolding distanceTo_def Let_def by (intro real_le_lsqrt) simp_all
qed

lemma cornerField:
  assumes "\<bar>vx w + 1\<bar> \<le> 3" "\<bar>vy w + 1\<bar> \<le> 3" "\<bar>vz w + 1\<bar> \<le> 3"
  shows "fieldValue oneCellParams (spheres cornerSphereState) w
           = distanceTo w (Vector3 (- 1) (- 1) (- 1)) - 1"
proof -
  have "distanceTo w (Vector3 (- 1) (- 1) (- 1)) \<le> 6"
    using assms by (intro distanceTo_bound) simp_all
  then have "smin 1000000000 (distanceTo w (Vector3 (- 1) (- 1) (- 1)) - 1) 0.075
      = distanceTo w (Vector3 (- 1) (- 1) (- 1)) - 1"
    by (intro smin_sentinel) simp_all
  then show ?thesis
    by (simp add: fieldValue_def fieldStep_def sdf_sphere_def cornerSphereState_def
        cornerSphere_def oneCellParams_def defaultParams_def)
qed

lemma distanceTo_axis:
  "distanceTo (Vector3 x b c) (Vector3 a b c) = \<bar>x - a\<bar>"
  "distanceTo (Vector3 a y c) (Vector3 a b c) = \<bar>y - b\<bar>"
  "distanceTo (Vector3 a b z) (Vector3 a b c) = \<bar>z - c\<bar>"
  by (simp_all add: distanceTo_def)

lemma cellSize_oneCell: "cellSizeOf oneCellParams = 2"
  by (simp add: cellSizeOf_def oneCellParams_def defaultParams_def)

lemma corners_oneCell:
  "cornerPoint oneCellParams 0 0 0 0 = Vector3 (- 1) (- 1) (- 1)"
  "cornerPoint oneCellParams 0 0 0 1 = Vector3 1 (- 1) (- 1)"
  "cornerPoint oneCellParams 0 0 0 2 = Vector3 1 1 (- 1)"
  "cornerPoint oneCellParams 0 0 0 3 = Vector3 (- 1) 1 (- 1)"
  "cornerPoint oneCellParams 0 0 0 4 = Vector3 (- 1) (- 1) 1"
  "cornerPoint oneCellParams 0 0 0 5 = Vector3 1 (- 1) 1"
  "cornerPoint oneCellParams 0 0 0 6 = Vector3 1 1 1"
  "cornerPoint oneCellParams 0 0 0 7 = Vector3 (- 1) 1 1"
  by (simp_all add: cornerPoint_def cellSize_oneCell bit_numeral_simps bit_0)
    (simp_all add: oneCellParams_def defaultParams_def)

lemma corner_oneCell_Suc: "cornerPoint oneCellParams 0 0 0 (Suc 0) = Vector3 1 (- 1) (- 1)"
  using corners_oneCell(2) by simp

lemma values_oneCell:
  "cornerSphereField (Vector3 (- 1) (- 1) (- 1)) = - 1"
  "cornerSphereField (Vector3 1 (- 1) (- 1)) = 1"
  "cornerSphereField (Vector3 (- 1) 1 (- 1)) = 1"
  "cornerSphereField (Vector3 (- 1) (- 1) 1) = 1"
  "\<not> cornerSphereField (Vector3 1 1 (- 1)) < 0"
  "\<not> cornerSphereField (Vector3 1 (- 1) 1) < 0"
  "\<not> cornerSphereField (Vector3 1 1 1) < 0"
  "\<not> cornerSphereField (Vector3 (- 1) 1 1) < 0"
  by (simp_all add: cornerField distanceTo_axis) (simp_all add: distanceTo_def)

lemma iso_oneCell: "isoLevel oneCellParams = 0"
  by (simp add: oneCellParams_def defaultParams_def)

lemma cellIndex_oneCell: "cellIndex oneCellParams cornerSphereField 0 0 0 = 1"
  by (simp add: cellIndex_def cubeIndexOf_def upt_0_8 corners_oneCell corner_oneCell_Suc
      values_oneCell iso_oneCell)

lemma edgePoints_oneCell:
  "edgePoint oneCellParams cornerSphereField 0 0 0 0 = Vector3 0 (- 1) (- 1)"
  "edgePoint oneCellParams cornerSphereField 0 0 0 3 = Vector3 (- 1) 0 (- 1)"
  "edgePoint oneCellParams cornerSphereField 0 0 0 8 = Vector3 (- 1) (- 1) 0"
  by (simp_all add: edgePoint_def edgeCorners_def Let_def corners_oneCell corner_oneCell_Suc
      values_oneCell iso_oneCell interpolated_def lerpVectors_def)

lemma sqrt_step: "sqrt (1 / 250000) = 1 / 500"
  by (rule real_sqrt_unique) (simp_all add: power2_eq_square)

lemma normals_oneCell:
  "gradientNormal cornerSphereField (Vector3 0 (- 1) (- 1)) = Vector3 1 0 0"
  "gradientNormal cornerSphereField (Vector3 (- 1) 0 (- 1)) = Vector3 0 1 0"
  "gradientNormal cornerSphereField (Vector3 (- 1) (- 1) 0) = Vector3 0 0 1"
  by (simp_all add: gradientNormal_def Let_def cornerField distanceTo_axis)
    (simp_all add: distanceTo_def normalize_def vlength_def multiplyScalar_def Let_def sqrt_step)


lemma cells_oneCell: "nat (cellsPerAxis oneCellParams) = Suc 0"
  by (simp add: oneCellParams_def defaultParams_def)

lemma tables_caseOne:
  "edgeTable caseOneTables (Suc 0) = 265"
  "triTable caseOneTables (Suc 0) = [0, 8, 3, - 1, - 1, - 1, - 1, - 1, - 1, - 1, - 1, - 1, - 1, - 1, - 1, - 1]"
  by (simp_all add: caseOneTables_def)

lemma mesh_oneCell:
  "meshVertices oneCellParams caseOneTables cornerSphereField = [- 1, 0, - 1, - 1, - 1, 0, 0, - 1, - 1]"
  "meshNormals oneCellParams caseOneTables cornerSphereField = [1, 0, 0, 1, 0, 0, 1, 0, 0]"
  by (simp_all add: meshVertices_def meshNormals_def overGrid_def cellVertices_def cellNormals_def
      cells_oneCell cellIndex_oneCell tables_caseOne edgePoints_oneCell normals_oneCell
      pushVec_def Let_def)

section \<open>Claims about the normals\<close>

text \<open>
  C1.  The claim is that each of the three vertices of an emitted triangle gets the
  normalized central-difference gradient at its own position.  On the one-cell example
  \<open>updateMesh\<close> emits the triangle \<open>(-1, 0, -1)\<close>, \<open>(-1, -1, 0)\<close>, \<open>(0, -1, -1)\<close>; the gradient
  normals at these points are \<open>(0, 1, 0)\<close>, \<open>(0, 0, 1)\<close> and \<open>(1, 0, 0)\<close>, and the normal
  buffer holds \<open>(1, 0, 0)\<close> three times: \<open>estimateNormal\<close> returns the one object
  \<open>normal_h\<close>, which is read only after the third call.
\<close>

theorem updateMesh_repeats_last_normal:
  "\<exists>st'. updateMesh oneCellParams caseOneTables cornerSphereState = Inr st'
     \<and> vertices st' = [- 1, 0, - 1, - 1, - 1, 0, 0, - 1, - 1]
     \<and> normals st' = [1, 0, 0, 1, 0, 0, 1, 0, 0]
     \<and> gradientNormal (fieldValue oneCellParams (spheres cornerSphereState)) (Vector3 (- 1) 0 (- 1))
         = Vector3 0 1 0
     \<and> gradientNormal (fieldValue oneCellParams (spheres cornerSphereState)) (Vector3 (- 1) (- 1) 0)
         = Vector3 0 0 1
     \<and> gradientNormal (fieldValue oneCellParams (spheres cornerSphereState)) (Vector3 0 (- 1) (- 1))
         = Vector3 1 0 0"
  using updateMesh_result [OF wellFormed_cornerSphereState tablesConsistent_caseOneTables,
      of oneCellParams]
  by (auto simp add: mesh_oneCell normals_oneCell)

end
